theory Spec2Isabelle
  imports Main "HOL-Library.Word"
begin

section \<open>Outcomes of C++ code\<close>

text \<open>
  The daemon (\<^verbatim>\<open>akumulid/main.cpp\<close>) signals every error with a C++ exception that
  \<^verbatim>\<open>main\<close> catches. An exception is a value of \<open>exn\<close>; a computation returns
  \<open>Ok v\<close>, or \<open>Throw e\<close>, or \<open>Undefined_Behaviour what\<close> where the C++ standard gives the
  executed operation no meaning (\<^verbatim>\<open>std::string::back()\<close> on an empty string).
\<close>

type_synonym u64 = "64 word"

datatype exn =
    RuntimeError string          \<comment> \<open>\<^verbatim>\<open>std::runtime_error\<close>, with \<^verbatim>\<open>what()\<close>\<close>
  | PtreeBadPath string          \<comment> \<open>\<^verbatim>\<open>boost::property_tree::ptree_bad_path\<close>, with the path\<close>
  | PtreeBadData string          \<comment> \<open>\<^verbatim>\<open>boost::property_tree::ptree_bad_data\<close>, with the path\<close>
  | IniParserError string nat    \<comment> \<open>\<^verbatim>\<open>ini_parser_error\<close>, message and line number\<close>
  | BadAddress string            \<comment> \<open>\<^verbatim>\<open>address_v4::from_string\<close> failed on this text\<close>
  | OtherException string        \<comment> \<open>anything else, caught by \<^verbatim>\<open>catch(...)\<close>\<close>

datatype 'a res = Ok 'a | Throw exn | Undefined_Behaviour string

fun bind_res :: "'a res \<Rightarrow> ('a \<Rightarrow> 'b res) \<Rightarrow> 'b res" where
  "bind_res (Ok v) f = f v"
| "bind_res (Throw e) f = Throw e"
| "bind_res (Undefined_Behaviour w) f = Undefined_Behaviour w"

section \<open>\<^verbatim>\<open>ConfigFile::get_memory_size\<close>\<close>

text \<open>
  \<^verbatim>\<open>boost::lexical_cast<u64>(std::string)\<close>, as the library converts a string to an
  unsigned integer: an optional sign \<^verbatim>\<open>+\<close> or \<^verbatim>\<open>-\<close>, then one or more decimal digits and
  nothing else; the digits must denote a value that fits 64 bits; with a leading minus the
  value is negated modulo \<open>2 ^ 64\<close>. \<open>None\<close> stands for \<^verbatim>\<open>bad_lexical_cast\<close>.
\<close>

definition is_digit :: "char \<Rightarrow> bool" where
  "is_digit c = (c \<in> set ''0123456789'')"

definition digits_value :: "string \<Rightarrow> nat" where
  "digits_value ds = foldl (\<lambda>acc c. 10 * acc + (of_char c - 48)) 0 ds"

definition lexical_cast_u64 :: "string \<Rightarrow> u64 option" where
  "lexical_cast_u64 s =
     (case s of
        [] \<Rightarrow> None
      | c # cs \<Rightarrow>
          (let has_minus = (c = CHR ''-'');
               ds = (if has_minus \<or> c = CHR ''+'' then cs else s)
           in if ds = [] \<or> \<not> list_all is_digit ds then None
              else if 2 ^ 64 \<le> digits_value ds then None
              else if has_minus then Some (0 - word_of_nat (digits_value ds))
              else Some (word_of_nat (digits_value ds))))"

definition throw_decode_error :: "string \<Rightarrow> 'a res" where
  "throw_decode_error strsize =
     Throw (RuntimeError (''can't decode volume size: `'' @ strsize @ ''`''))"

text \<open>
  \<^verbatim>\<open>get_memory_size\<close> (main.cpp, lines 202-238). \<^verbatim>\<open>tmp.back()\<close> and \<^verbatim>\<open>tmp.pop_back()\<close>
  are defined on non-empty strings only; the source calls them without a test, so each call is
  guarded here and the empty case is \<open>Undefined_Behaviour\<close>. The multiplication
  \<^verbatim>\<open>result *= mul\<close> is on \<^verbatim>\<open>u64\<close> and wraps.
\<close>

definition get_memory_size :: "string \<Rightarrow> u64 res" where
  "get_memory_size strsize =
     (case lexical_cast_u64 strsize of
        Some result \<Rightarrow> Ok result
      | None \<Rightarrow>
          (let tmp = strsize in
           if tmp = [] then Undefined_Behaviour ''std::string::back() on an empty string''
           else if last tmp \<noteq> CHR ''B'' \<and> last tmp \<noteq> CHR ''b'' then throw_decode_error strsize
           else
             (let tmp = butlast tmp in
              if tmp = [] then Undefined_Behaviour ''std::string::back() on an empty string''
              else
                (let symbol = last tmp;
                     tmp = butlast tmp
                 in if symbol = CHR ''G'' \<or> symbol = CHR ''g'' then
                      (case lexical_cast_u64 tmp of
                         None \<Rightarrow> throw_decode_error strsize
                       | Some result \<Rightarrow> Ok (result * (1024 * 1024 * 1024)))
                    else if symbol = CHR ''M'' \<or> symbol = CHR ''m'' then
                      (case lexical_cast_u64 tmp of
                         None \<Rightarrow> throw_decode_error strsize
                       | Some result \<Rightarrow> Ok (result * (1024 * 1024)))
                    else throw_decode_error strsize))))"

section \<open>Property trees and the INI reader\<close>

text \<open>
  \<^verbatim>\<open>boost::property_tree::ptree\<close>: a node carries a string and an ordered list of named
  children. \<^verbatim>\<open>find(key)\<close> gives the first child of that name, \<^verbatim>\<open>count(key)\<close> the number
  of children of that name; a path \<^verbatim>\<open>A.b\<close> is walked one name at a time.
\<close>

datatype ptree = PTree (data: string) (children: "(string \<times> ptree) list")

definition find_child :: "ptree \<Rightarrow> string \<Rightarrow> ptree option" where
  "find_child t key = map_of (children t) key"

definition count_child :: "ptree \<Rightarrow> string \<Rightarrow> nat" where
  "count_child t key = length (filter (\<lambda>kv. fst kv = key) (children t))"

fun split_on :: "char \<Rightarrow> string \<Rightarrow> string list" where
  "split_on d [] = [[]]"
| "split_on d (c # cs) =
     (if c = d then [] # split_on d cs
      else (case split_on d cs of [] \<Rightarrow> [[c]] | w # ws \<Rightarrow> (c # w) # ws))"

fun walk_path :: "ptree \<Rightarrow> string list \<Rightarrow> ptree option" where
  "walk_path t [] = Some t"
| "walk_path t (k # ks) =
     (case find_child t k of None \<Rightarrow> None | Some c \<Rightarrow> walk_path c ks)"

definition get_child_optional :: "ptree \<Rightarrow> string \<Rightarrow> ptree option" where
  "get_child_optional t path = walk_path t (split_on (CHR ''.'') path)"

text \<open>
  The typed readers. \<^verbatim>\<open>get<T>(path)\<close> throws \<^verbatim>\<open>ptree_bad_path\<close> when the node is
  missing and \<^verbatim>\<open>ptree_bad_data\<close> when its text does not convert; \<^verbatim>\<open>get<T>(path, dflt)\<close>
  gives the default in both cases. A number is converted by stream extraction followed by
  \<^verbatim>\<open>std::ws\<close> and a test for the end of the text: blanks around, an optional sign, decimal
  digits, a value in the range of the type (for \<^verbatim>\<open>unsigned short\<close> a negative text is
  negated modulo \<open>2 ^ 16\<close>, as libstdc++ reads it).
\<close>

definition is_space :: "char \<Rightarrow> bool" where
  "is_space c = (c \<in> set [CHR '' '', CHR 0x09, CHR 0x0A, CHR 0x0B, CHR 0x0C, CHR 0x0D])"

definition trim :: "string \<Rightarrow> string" where
  "trim s = rev (dropWhile is_space (rev (dropWhile is_space s)))"

definition signed_digits :: "string \<Rightarrow> (bool \<times> nat) option" where
  "signed_digits s =
     (case trim s of
        [] \<Rightarrow> None
      | c # cs \<Rightarrow>
          (let neg = (c = CHR ''-'');
               ds = (if neg \<or> c = CHR ''+'' then cs else c # cs)
           in if ds = [] \<or> \<not> list_all is_digit ds then None
              else Some (neg, digits_value ds)))"

definition stream_int :: "string \<Rightarrow> int option" where
  "stream_int s =
     (case signed_digits s of
        None \<Rightarrow> None
      | Some (neg, v) \<Rightarrow>
          (if neg then (if v \<le> 2 ^ 31 then Some (- int v) else None)
           else (if v < 2 ^ 31 then Some (int v) else None)))"

definition stream_ushort :: "string \<Rightarrow> nat option" where
  "stream_ushort s =
     (case signed_digits s of
        None \<Rightarrow> None
      | Some (neg, v) \<Rightarrow>
          (if 2 ^ 16 \<le> v then None
           else if neg then Some ((2 ^ 16 - v) mod 2 ^ 16)
           else Some v))"

definition get_string :: "ptree \<Rightarrow> string \<Rightarrow> string res" where
  "get_string t path =
     (case get_child_optional t path of
        None \<Rightarrow> Throw (PtreeBadPath path)
      | Some c \<Rightarrow> Ok (data c))"

definition get_string_default :: "ptree \<Rightarrow> string \<Rightarrow> string \<Rightarrow> string" where
  "get_string_default t path dflt =
     (case get_child_optional t path of None \<Rightarrow> dflt | Some c \<Rightarrow> data c)"

definition get_optional_string :: "ptree \<Rightarrow> string \<Rightarrow> string option" where
  "get_optional_string t path = map_option data (get_child_optional t path)"

definition get_int :: "ptree \<Rightarrow> string \<Rightarrow> int res" where
  "get_int t path =
     (case get_child_optional t path of
        None \<Rightarrow> Throw (PtreeBadPath path)
      | Some c \<Rightarrow>
          (case stream_int (data c) of
             None \<Rightarrow> Throw (PtreeBadData path)
           | Some v \<Rightarrow> Ok v))"

definition get_int_default :: "ptree \<Rightarrow> string \<Rightarrow> int \<Rightarrow> int" where
  "get_int_default t path dflt =
     (case get_child_optional t path of
        None \<Rightarrow> dflt
      | Some c \<Rightarrow> (case stream_int (data c) of None \<Rightarrow> dflt | Some v \<Rightarrow> v))"

definition get_ushort :: "ptree \<Rightarrow> string \<Rightarrow> nat res" where
  "get_ushort t path =
     (case get_child_optional t path of
        None \<Rightarrow> Throw (PtreeBadPath path)
      | Some c \<Rightarrow>
          (case stream_ushort (data c) of
             None \<Rightarrow> Throw (PtreeBadData path)
           | Some v \<Rightarrow> Ok v))"

text \<open>
  \<^verbatim>\<open>boost::property_tree::ini_parser::read_ini\<close>. The reader keeps the tree built so far
  (\<open>local\<close>, the children of the root) and whether a section is open; the open section is
  always the last child of \<open>local\<close>. Each line is trimmed; an empty line and a line that
  starts with \<^verbatim>\<open>;\<close> or \<^verbatim>\<open>#\<close> are skipped; \<^verbatim>\<open>[name]\<close> opens a section, after dropping
  the previous section when it has no key; any other line is \<^verbatim>\<open>key=value\<close> and goes to the
  open section, or to the root when none is open.
\<close>

record ini_state =
  local :: "(string \<times> ptree) list"
  in_section :: bool

definition drop_empty_section :: "ini_state \<Rightarrow> (string \<times> ptree) list" where
  "drop_empty_section st =
     (if in_section st \<and> local st \<noteq> [] \<and> children (snd (last (local st))) = []
      then butlast (local st) else local st)"

definition index_of :: "char \<Rightarrow> string \<Rightarrow> nat option" where
  "index_of c s = (if c \<in> set s then Some (length (takeWhile (\<lambda>x. x \<noteq> c) s)) else None)"

definition ini_line :: "ini_state \<Rightarrow> nat \<Rightarrow> string \<Rightarrow> ini_state res" where
  "ini_line st line_no raw =
     (let line = trim raw in
      if line = [] then Ok st
      else if hd line = CHR '';'' \<or> hd line = CHR ''#'' then Ok st
      else if hd line = CHR ''['' then
        (let loc = drop_empty_section st in
         case index_of (CHR '']'') line of
           None \<Rightarrow> Throw (IniParserError ''unmatched ['' line_no)
         | Some e \<Rightarrow>
             (let key = trim (take (e - 1) (drop 1 line)) in
              if map_of loc key \<noteq> None
              then Throw (IniParserError ''duplicate section name'' line_no)
              else Ok \<lparr>local = loc @ [(key, PTree [] [])], in_section = True\<rparr>))
      else
        (case index_of (CHR ''='') line of
           None \<Rightarrow> Throw (IniParserError ''= character not found in line'' line_no)
         | Some eqpos \<Rightarrow>
             if eqpos = 0 then Throw (IniParserError ''key expected'' line_no)
             else
               (let key = trim (take eqpos line);
                    dat = trim (drop (eqpos + 1) line)
                in if in_section st \<and> local st \<noteq> [] then
                     (let sec = last (local st) in
                      if map_of (children (snd sec)) key \<noteq> None
                      then Throw (IniParserError ''duplicate key name'' line_no)
                      else Ok (st\<lparr>local := butlast (local st) @
                             [(fst sec, PTree (data (snd sec))
                                 (children (snd sec) @ [(key, PTree dat [])]))]\<rparr>))
                   else
                     (if map_of (local st) key \<noteq> None
                      then Throw (IniParserError ''duplicate key name'' line_no)
                      else Ok (st\<lparr>local := local st @ [(key, PTree dat [])]\<rparr>)))))"

fun ini_lines :: "ini_state \<Rightarrow> nat \<Rightarrow> string list \<Rightarrow> ini_state res" where
  "ini_lines st n [] = Ok st"
| "ini_lines st n (l # ls) =
     (case ini_line st n l of
        Ok st' \<Rightarrow> ini_lines st' (Suc n) ls
      | Throw e \<Rightarrow> Throw e
      | Undefined_Behaviour w \<Rightarrow> Undefined_Behaviour w)"

definition read_ini :: "string \<Rightarrow> ptree res" where
  "read_ini content =
     (case ini_lines \<lparr>local = [], in_section = False\<rparr> 1 (split_on (CHR 0x0A) content) of
        Ok st \<Rightarrow> Ok (PTree [] (drop_empty_section st))
      | Throw e \<Rightarrow> Throw e
      | Undefined_Behaviour w \<Rightarrow> Undefined_Behaviour w)"

section \<open>Text output\<close>

text \<open>
  Decimal output of integers (\<^verbatim>\<open>operator<<\<close> on \<^verbatim>\<open>int\<close>), and the output of a
  \<^verbatim>\<open>boost::filesystem::path\<close>, which the stream operator writes between double quotes, with
  \<^verbatim>\<open>&\<close> before every double quote and every \<^verbatim>\<open>&\<close> of the path.
\<close>

fun show_nat :: "nat \<Rightarrow> string" where
  "show_nat n =
     (if n < 10 then [''0123456789'' ! n]
      else show_nat (n div 10) @ [''0123456789'' ! (n mod 10)])"

declare show_nat.simps [simp del]

definition show_int :: "int \<Rightarrow> string" where
  "show_int i = (if i < 0 then CHR ''-'' # show_nat (nat (- i)) else show_nat (nat i))"

definition quoted :: "string \<Rightarrow> string" where
  "quoted s =
     CHR 0x22 # concat (map (\<lambda>c. if c = CHR 0x22 \<or> c = CHR ''&'' then [CHR ''&'', c] else [c]) s)
       @ [CHR 0x22]"

section \<open>The environment of the daemon\<close>

text \<open>
  What \<^verbatim>\<open>main.cpp\<close> reads from outside the file is a field of \<open>env\<close>: the file system
  (\<^verbatim>\<open>boost::filesystem::exists\<close>, the files read and written), the variable \<^verbatim>\<open>HOME\<close>, the
  shell expansion \<^verbatim>\<open>wordexp\<close> (\<open>None\<close> for a non-zero return code, otherwise the words),
  \<^verbatim>\<open>std::thread::hardware_concurrency\<close>, the version macro, the ids that
  \<^verbatim>\<open>SignalHandler::wait\<close> returns once a termination signal has arrived, and the calls
  into the storage engine with the status each returns (0 is \<^verbatim>\<open>APR_SUCCESS\<close>).
\<close>

datatype node = File string | Directory

type_synonym filesystem = "string \<Rightarrow> node option"

record env =
  files :: filesystem
  HOME :: string
  wordexp :: "string \<Rightarrow> string list option"
  can_create :: "string \<Rightarrow> bool"
  hardware_concurrency :: nat
  AKU_VERSION :: string
  sig_wait :: "nat list \<Rightarrow> nat list"
  apr_strerror :: "nat \<Rightarrow> string"
  aku_create_database_ex ::
    "string \<Rightarrow> string \<Rightarrow> string \<Rightarrow> int \<Rightarrow> u64 \<Rightarrow> bool \<Rightarrow> filesystem \<Rightarrow> nat \<times> filesystem"
  aku_remove_database :: "string \<Rightarrow> string \<Rightarrow> bool \<Rightarrow> filesystem \<Rightarrow> nat \<times> filesystem"
  aku_debug_report_dump :: "string \<Rightarrow> string option \<Rightarrow> filesystem \<Rightarrow> nat \<times> filesystem"
  aku_debug_recovery_report_dump ::
    "string \<Rightarrow> string option \<Rightarrow> filesystem \<Rightarrow> nat \<times> filesystem"

definition exists_path :: "filesystem \<Rightarrow> string \<Rightarrow> bool" where
  "exists_path f p = (f p \<noteq> None)"

text \<open>\<^verbatim>\<open>boost::filesystem::path::operator/\<close>: a separator is added unless one is there.\<close>

definition path_append :: "string \<Rightarrow> string \<Rightarrow> string" where
  "path_append p q =
     (if p = [] then q
      else if last p = CHR ''/'' then p @ q
      else p @ ''/'' @ q)"

section \<open>\<^verbatim>\<open>ConfigFile\<close>\<close>

definition expand_path :: "env \<Rightarrow> string \<Rightarrow> string res" where
  "expand_path e p =
     (case wordexp e p of
        None \<Rightarrow> Throw (RuntimeError (''invalid path: `'' @ p @ ''`''))
      | Some we_wordv \<Rightarrow>
          (if length we_wordv \<noteq> 1
           then Throw (RuntimeError (''expansion error, path: `'' @ p @ ''`''))
           else Ok (hd we_wordv)))"

definition get_config_path :: "env \<Rightarrow> string option \<Rightarrow> string res" where
  "get_config_path e config_path =
     (case config_path of
        Some p \<Rightarrow> expand_path e p
      | None \<Rightarrow> Ok (path_append (HOME e) ''.akumulid''))"

text \<open>
  The two texts written by \<^verbatim>\<open>--init\<close> (lines 39-113), line by line; each line ends in
  a newline.
\<close>

definition unlines :: "string list \<Rightarrow> string" where
  "unlines ls = concat (map (\<lambda>l. l @ [CHR 0x0A]) ls)"

definition DEFAULT_CONFIG :: string where
  "DEFAULT_CONFIG = unlines
    [
     ''# akumulid configuration file (generated automatically).'',
     '''',
     ''# path to database files.  Default values is  ~/.akumuli.'',
     ''path=~/.akumuli'',
     '''',
     ''# Number of volumes used  to store data.  Each volume  is'',
     ''# 4Gb in size by default and allocated beforehand. To change number'',
     ''# of  volumes  they  should  change  `nvolumes`  value in'',
     ''# configuration and restart daemon.'',
     ''nvolumes=%1%'',
     '''',
     ''# Size of the individual volume. You can use MB or GB suffix.'',
     ''# Default value is 4GB (if value is not set).'',
     ''volume_size=4GB'',
     '''',
     '''',
     ''# HTTP API endpoint configuration'',
     '''',
     ''[HTTP]'',
     ''# port number'',
     ''port=8181'',
     '''',
     '''',
     ''# TCP ingestion server config (delete to disable)'',
     '''',
     ''[TCP]'',
     ''# port number'',
     ''port=8282'',
     ''# worker pool size (0 means that the size of the pool will be chosen automatically)'',
     ''pool_size=0'',
     '''',
     '''',
     ''# UDP ingestion server config (delete to disable)'',
     '''',
     ''[UDP]'',
     ''# port number'',
     ''port=8383'',
     ''# worker pool size'',
     ''pool_size=1'',
     '''',
     ''# OpenTSDB telnet-style data connection enabled (remove this section to disable).'',
     '''',
     ''[OpenTSDB]'',
     ''# port number'',
     ''port=4242'',
     '''',
     '''',
     ''# Logging configuration'',
     ''# This is just a log4cxx configuration without any modifications'',
     '''',
     ''log4j.rootLogger=all, file'',
     ''log4j.appender.file=org.apache.log4j.DailyRollingFileAppender'',
     ''log4j.appender.file.layout=org.apache.log4j.PatternLayout'',
     ''log4j.appender.file.layout.ConversionPattern=%%d{yyyy-MM-dd HH:mm:ss,SSS} [%%t] %%c [%%p] %%m%%n'',
     ''log4j.appender.file.filename=/tmp/akumuli.log'',
     ''log4j.appender.file.datePattern='.'yyyy-MM-dd'',
     '''']"

definition WAL_CONFIG :: string where
  "WAL_CONFIG = unlines
    [
     ''# Write-Ahead-Log section (delete to disable)'',
     '''',
     ''[WAL]'',
     ''# WAL location'',
     ''path=~/.akumuli'',
     '''',
     ''# Max volume size. Log records are added until file size'',
     ''# will exced configured value.'',
     ''volume_size=256MB'',
     '''',
     ''# Number of log volumes to keep on disk per CPU core. E.g. with `volume_size` = 256MB'',
     ''# and `nvolumes` = 4 and 4 CPUs WAL will use 4GB at most (4*4*256MB).'',
     ''nvolumes=4'',
     '''']"

text \<open>
  \<^verbatim>\<open>boost::str(boost::format(DEFAULT_CONFIG) % nvolumes)\<close>: \<^verbatim>\<open>%1%\<close> stands for the argument
  and \<^verbatim>\<open>%%\<close> for a percent sign. \<^verbatim>\<open>DEFAULT_CONFIG\<close> has no other directive; on any other
  the model throws.
\<close>

fun cons_res :: "string \<Rightarrow> string res \<Rightarrow> string res" where
  "cons_res s (Ok r) = Ok (s @ r)"
| "cons_res s (Throw e) = Throw e"
| "cons_res s (Undefined_Behaviour w) = Undefined_Behaviour w"

fun boost_format :: "string \<Rightarrow> string \<Rightarrow> string res" where
  "boost_format [] a = Ok []"
| "boost_format [c] a =
     (if c = CHR ''%'' then Throw (OtherException ''boost::io::bad_format_string'') else Ok [c])"
| "boost_format [c, d] a =
     (if c \<noteq> CHR ''%'' then cons_res [c] (boost_format [d] a)
      else if d = CHR ''%'' then Ok ''%''
      else Throw (OtherException ''boost::io::bad_format_string''))"
| "boost_format (c # d # x # cs) a =
     (if c \<noteq> CHR ''%'' then cons_res [c] (boost_format (d # x # cs) a)
      else if d = CHR ''%'' then cons_res ''%'' (boost_format (x # cs) a)
      else if d = CHR ''1'' \<and> x = CHR ''%'' then cons_res a (boost_format cs a)
      else Throw (OtherException ''boost::io::bad_format_string''))"

text \<open>
  \<^verbatim>\<open>init_config\<close> and \<^verbatim>\<open>init_exp_config\<close> (lines 129-157) differ in \<^verbatim>\<open>nvolumes\<close> only.
  The stream is opened without a test: where the file cannot be created nothing is written
  and nothing is thrown. \<^verbatim>\<open>std::endl\<close> adds a newline after each part.
\<close>

definition write_config :: "env \<Rightarrow> string \<Rightarrow> int \<Rightarrow> bool \<Rightarrow> filesystem res" where
  "write_config e p nvols disable_wal =
     (if exists_path (files e) p
      then Throw (RuntimeError ''configuration file already exists'')
      else bind_res (boost_format DEFAULT_CONFIG (show_int nvols)) (\<lambda>config.
        Ok (if can_create e p
            then (files e)(p \<mapsto> File (config @ [CHR 0x0A] @
                     (if \<not> disable_wal then WAL_CONFIG @ [CHR 0x0A] else [])))
            else files e)))"

definition init_config :: "env \<Rightarrow> string \<Rightarrow> bool \<Rightarrow> filesystem res" where
  "init_config e p disable_wal = write_config e p 4 disable_wal"

definition init_exp_config :: "env \<Rightarrow> string \<Rightarrow> bool \<Rightarrow> filesystem res" where
  "init_exp_config e p disable_wal = write_config e p 0 disable_wal"

definition read_config_file :: "env \<Rightarrow> string \<Rightarrow> ptree res" where
  "read_config_file e file_path =
     (case files e file_path of
        None \<Rightarrow> Throw (RuntimeError (''can't read config file `'' @ quoted file_path @ ''`''))
      | Some Directory \<Rightarrow> Throw (IniParserError ''read error'' 1)
      | Some (File content) \<Rightarrow> read_ini content)"

definition get_path :: "env \<Rightarrow> ptree \<Rightarrow> string res" where
  "get_path e conf = bind_res (get_string conf ''path'') (expand_path e)"

definition get_nvolumes :: "ptree \<Rightarrow> int res" where
  "get_nvolumes conf = get_int conf ''nvolumes''"

definition get_volume_size :: "ptree \<Rightarrow> u64 res" where
  "get_volume_size conf = get_memory_size (get_string_default conf ''volume_size'' ''4GB'')"

text \<open>
  \<^verbatim>\<open>WALSettings\<close>: the fields \<^verbatim>\<open>path\<close>, \<^verbatim>\<open>nvolumes\<close> (here \<open>wal_path\<close> and
  \<open>wal_nvolumes\<close>) and \<^verbatim>\<open>volume_size_bytes\<close>, the last two of type \<^verbatim>\<open>int\<close>;
  \<^verbatim>\<open>settings = {}\<close> is the empty path and zeros. \<^verbatim>\<open>static_cast<int>(bytes)\<close> keeps the
  low 32 bits of the \<^verbatim>\<open>u64\<close>, read as two's complement.
\<close>

record WALSettings =
  wal_path :: string
  wal_nvolumes :: int
  volume_size_bytes :: int

definition get_wal_settings :: "env \<Rightarrow> ptree \<Rightarrow> WALSettings res" where
  "get_wal_settings e conf =
     (if find_child conf ''WAL'' \<noteq> None then
        bind_res (expand_path e (get_string_default conf ''WAL.path'' [])) (\<lambda>p.
          if \<not> exists_path (files e) p then Throw (RuntimeError ''WAL.path doesn't exist'')
          else
            bind_res (get_memory_size (get_string_default conf ''WAL.volume_size'' ''0''))
              (\<lambda>bytes. Ok \<lparr>wal_path = p,
                            wal_nvolumes = get_int_default conf ''WAL.nvolumes'' 0,
                            volume_size_bytes = sint (ucast bytes :: 32 word)\<rparr>))
      else Ok \<lparr>wal_path = [], wal_nvolumes = 0, volume_size_bytes = 0\<rparr>)"

text \<open>
  Endpoints. \<^verbatim>\<open>address_v4::from_string\<close> reads a dotted quad as \<^verbatim>\<open>inet_pton\<close> does: four
  decimal parts of value at most 255, none with a leading zero before another digit;
  \<^verbatim>\<open>tcp::v4()\<close> is the address 0.0.0.0.
\<close>

datatype address = AddrV4 nat nat nat nat

record endpoint =
  addr :: address
  port :: nat

definition octet_ok :: "string \<Rightarrow> bool" where
  "octet_ok s = (s \<noteq> [] \<and> list_all is_digit s \<and> (length s = 1 \<or> hd s \<noteq> CHR ''0'')
                 \<and> digits_value s \<le> 255)"

definition address_from_string :: "string \<Rightarrow> address res" where
  "address_from_string s =
     (case split_on (CHR ''.'') s of
        [a, b, c, d] \<Rightarrow>
          (if octet_ok a \<and> octet_ok b \<and> octet_ok c \<and> octet_ok d
           then Ok (AddrV4 (digits_value a) (digits_value b) (digits_value c) (digits_value d))
           else Throw (BadAddress s))
      | _ \<Rightarrow> Throw (BadAddress s))"

definition show_endpoint :: "endpoint \<Rightarrow> string" where
  "show_endpoint ep =
     (case addr ep of AddrV4 a b c d \<Rightarrow>
        show_nat a @ ''.'' @ show_nat b @ ''.'' @ show_nat c @ ''.'' @ show_nat d
          @ '':'' @ show_nat (port ep))"

record ServerSettings =
  name :: string
  protocols :: "(string \<times> endpoint) list"
  nworkers :: int

text \<open>
  \<^verbatim>\<open>get_http_server\<close>, \<^verbatim>\<open>get_udp_server\<close> and \<^verbatim>\<open>get_tcp_server\<close> (lines 264-332) read
  the endpoint of a section in the same way, written once here: with a \<^verbatim>\<open>bind_addr\<close> the
  address is parsed first and the port read second; without one the port is read and the
  address is \<^verbatim>\<open>tcp::v4()\<close>.
\<close>

definition section_endpoint :: "ptree \<Rightarrow> string \<Rightarrow> endpoint res" where
  "section_endpoint conf sec =
     (case get_optional_string conf (sec @ ''.bind_addr'') of
        Some ip \<Rightarrow>
          bind_res (address_from_string ip) (\<lambda>a.
          bind_res (get_ushort conf (sec @ ''.port'')) (\<lambda>pt.
            Ok \<lparr>addr = a, port = pt\<rparr>))
      | None \<Rightarrow>
          bind_res (get_ushort conf (sec @ ''.port'')) (\<lambda>pt.
            Ok \<lparr>addr = AddrV4 0 0 0 0, port = pt\<rparr>))"

definition get_http_server :: "ptree \<Rightarrow> ServerSettings res" where
  "get_http_server conf =
     bind_res (section_endpoint conf ''HTTP'') (\<lambda>ep.
       Ok \<lparr>name = ''HTTP'', protocols = [(''HTTP'', ep)], nworkers = - 1\<rparr>)"

definition get_udp_server :: "ptree \<Rightarrow> ServerSettings res" where
  "get_udp_server conf =
     bind_res (section_endpoint conf ''UDP'') (\<lambda>ep.
     bind_res (get_int conf ''UDP.pool_size'') (\<lambda>n.
       Ok \<lparr>name = ''UDP'', protocols = [(''UDP'', ep)], nworkers = n\<rparr>))"

definition get_tcp_server :: "ptree \<Rightarrow> ServerSettings res" where
  "get_tcp_server conf =
     bind_res (section_endpoint conf ''TCP'') (\<lambda>ep.
     bind_res (if count_child conf ''OpenTSDB'' \<noteq> 0
               then bind_res (section_endpoint conf ''OpenTSDB'') (\<lambda>oep.
                      Ok [(''RESP'', ep), (''OpenTSDB'', oep)])
               else Ok [(''RESP'', ep)]) (\<lambda>ps.
     bind_res (get_int conf ''TCP.pool_size'') (\<lambda>n.
       Ok \<lparr>name = ''TCP'', protocols = ps, nworkers = n\<rparr>)))"

text \<open>
  \<^verbatim>\<open>get_server_settings\<close> walks a \<^verbatim>\<open>std::map\<close>, that is in the order of the keys:
  HTTP, TCP, UDP.
\<close>

fun collect_settings ::
  "ptree \<Rightarrow> (string \<times> (ptree \<Rightarrow> ServerSettings res)) list \<Rightarrow> ServerSettings list res" where
  "collect_settings conf [] = Ok []"
| "collect_settings conf ((k, f) # kvs) =
     (if count_child conf k \<noteq> 0
      then bind_res (f conf) (\<lambda>s. bind_res (collect_settings conf kvs) (\<lambda>r. Ok (s # r)))
      else collect_settings conf kvs)"

definition get_server_settings :: "ptree \<Rightarrow> ServerSettings list res" where
  "get_server_settings conf =
     collect_settings conf
       [(''HTTP'', get_http_server), (''TCP'', get_tcp_server), (''UDP'', get_udp_server)]"

section \<open>The commands of the daemon\<close>

text \<open>
  What a run of the daemon does is a list of events: a line on standard output (the text as
  it is handed to \<^verbatim>\<open>cli_format\<close>, with its \<^verbatim>\<open>**\<close> and backquote markers), the help page,
  the \<^verbatim>\<open>**FAILURE**\<close> line on standard error with the exception caught, the opening of
  the database connection with its tuning parameters, the start of a server under an id,
  and the wait for a termination signal. Log lines are left out.
\<close>

record FineTuneParams =
  input_log_concurrency :: nat
  input_log_path :: "string option"
  input_log_volume_numb :: u64
  input_log_volume_size :: u64

definition no_params :: FineTuneParams where
  "no_params = \<lparr>input_log_concurrency = 0, input_log_path = None,
                 input_log_volume_numb = 0, input_log_volume_size = 0\<rparr>"

datatype event =
    Stdout string
  | PrintHelp
  | StderrFailure exn
  | OpenConnection string FineTuneParams
  | StartServer nat ServerSettings
  | SignalWait

text \<open>
  The WAL block of \<^verbatim>\<open>cmd_run_server\<close> (lines 511-548): the messages printed and the
  parameters handed to the connection.
\<close>

definition worker_count :: "env \<Rightarrow> ServerSettings \<Rightarrow> nat" where
  "worker_count e s = (if nworkers s < 0 then hardware_concurrency e else nat (nworkers s))"

definition wal_params :: "env \<Rightarrow> WALSettings \<Rightarrow> ServerSettings list \<Rightarrow> event list \<times> FineTuneParams" where
  "wal_params e wal_config ingestion_servers =
     (if wal_path wal_config \<noteq> [] \<and> wal_nvolumes wal_config \<noteq> 0
         \<and> volume_size_bytes wal_config \<noteq> 0 then
        (let log_ccr = foldl (\<lambda>acc s. max acc (worker_count e s)) 0 ingestion_servers;
             bad_nvolumes = (wal_nvolumes wal_config < 0 \<or> wal_nvolumes wal_config > 1000
                             \<or> wal_nvolumes wal_config = 1);
             bad_size = (volume_size_bytes wal_config < 1048576
                         \<or> volume_size_bytes wal_config > 1073741824);
             bad_path = (\<not> exists_path (files e) (wal_path wal_config));
             msgs =
               (if bad_nvolumes
                then [Stdout (''**ERROR** invalid configuration value WAL.nvolumes = ''
                        @ show_int (wal_nvolumes wal_config)
                        @ '', value should not exceed 1000 or be equal to 1'')]
                else [])
               @ (if bad_size
                  then [Stdout (''**ERROR** invalid configuration value WAL.volume_size = ''
                          @ show_int (volume_size_bytes wal_config)
                          @ '', size should be in 1MB-1GB range'')]
                  else [])
               @ (if bad_path
                  then [Stdout (''**ERROR** invalid configuration value WAL.path = ''
                          @ wal_path wal_config @ '', directory doesn't exist'')]
                  else []);
             use_wal = (\<not> bad_nvolumes \<and> \<not> bad_size \<and> \<not> bad_path)
         in (msgs,
             if use_wal
             then \<lparr>input_log_concurrency = log_ccr,
                   input_log_path = Some (wal_path wal_config),
                   input_log_volume_numb = word_of_int (wal_nvolumes wal_config),
                   input_log_volume_size = word_of_int (volume_size_bytes wal_config)\<rparr>
             else no_params))
      else ([], no_params))"

text \<open>The loop that starts the servers (lines 556-575), one id after the other.\<close>

definition started_line :: "ServerSettings \<Rightarrow> string" where
  "started_line s =
     (if length (protocols s) = 1
      then ''**OK** '' @ name s @ '' server started, endpoint: ''
             @ show_endpoint (snd (hd (protocols s)))
      else ''**OK** '' @ name s @ '' server started''
             @ concat (map (\<lambda>pr. '', '' @ fst pr @ '' endpoint: '' @ show_endpoint (snd pr))
                        (protocols s)))"

fun start_servers :: "nat \<Rightarrow> ServerSettings list \<Rightarrow> event list" where
  "start_servers srvid [] = []"
| "start_servers srvid (s # ss) =
     StartServer srvid s # Stdout (started_line s) # start_servers (Suc srvid) ss"

definition srvname :: "ServerSettings list \<Rightarrow> nat \<Rightarrow> string" where
  "srvname ss i = (if i < length ss then name (ss ! i) else [])"

text \<open>
  \<^verbatim>\<open>cmd_run_server\<close> (lines 497-582). Where the manifest \<^verbatim>\<open>db.akumuli\<close> is missing the
  function prints one line and returns; it throws nothing.
\<close>

definition cmd_run_server :: "env \<Rightarrow> string option \<Rightarrow> event list res" where
  "cmd_run_server e cmd_config_path =
     bind_res (get_config_path e cmd_config_path) (\<lambda>config_path.
     bind_res (read_config_file e config_path) (\<lambda>config.
     bind_res (get_path e config) (\<lambda>p.
     bind_res (get_server_settings config) (\<lambda>ingestion_servers.
     bind_res (get_wal_settings e config) (\<lambda>wal_config.
       (let full_path = path_append p ''db.akumuli'' in
        if \<not> exists_path (files e) full_path
        then Ok [Stdout (''**ERROR** database file doesn't exists at '' @ quoted p)]
        else
          (let (msgs, params) = wal_params e wal_config ingestion_servers;
               srvids = sig_wait e [0 ..< length ingestion_servers]
           in Ok (msgs @ [OpenConnection full_path params]
                  @ start_servers 0 ingestion_servers
                  @ [SignalWait]
                  @ map (\<lambda>i. Stdout (''**OK** '' @ srvname ingestion_servers i
                                      @ '' server stopped'')) srvids))))))))"

text \<open>
  The commands that call the engine. A status other than 0 is thrown as
  \<^verbatim>\<open>std::runtime_error\<close>; the commands return the lines printed and the file system the
  engine leaves.
\<close>

definition AKU_TEST_DB_SIZE :: u64 where
  "AKU_TEST_DB_SIZE = 2 * 1024 * 1024"

definition create_db_files ::
  "env \<Rightarrow> string \<Rightarrow> int \<Rightarrow> u64 \<Rightarrow> bool \<Rightarrow> (event list \<times> filesystem) res" where
  "create_db_files e p nvols volume_size allocate =
     (let full_path = path_append p ''db.akumuli'' in
      if \<not> exists_path (files e) full_path then
        (case aku_create_database_ex e ''db'' p p nvols volume_size allocate (files e) of
           (status, f') \<Rightarrow>
             if status \<noteq> 0
             then Throw (RuntimeError (''can't create database: '' @ apr_strerror e status))
             else Ok ([Stdout (''**OK** database created, path: `'' @ p @ ''`'')], f'))
      else Ok ([Stdout ''**ERROR** database file already exists''], files e))"

definition cmd_create_database ::
  "env \<Rightarrow> string option \<Rightarrow> bool \<Rightarrow> bool \<Rightarrow> (event list \<times> filesystem) res" where
  "cmd_create_database e cmd_config_path test_db allocate =
     bind_res (get_config_path e cmd_config_path) (\<lambda>config_path.
     bind_res (read_config_file e config_path) (\<lambda>config.
     bind_res (get_path e config) (\<lambda>p.
     bind_res (get_nvolumes config) (\<lambda>volumes.
     bind_res (get_volume_size config) (\<lambda>volsize.
       create_db_files e p volumes (if test_db then AKU_TEST_DB_SIZE else volsize) allocate)))))"

definition cmd_delete_database :: "env \<Rightarrow> string option \<Rightarrow> (event list \<times> filesystem) res" where
  "cmd_delete_database e cmd_config_path =
     bind_res (get_config_path e cmd_config_path) (\<lambda>config_path.
     bind_res (read_config_file e config_path) (\<lambda>config.
     bind_res (get_path e config) (\<lambda>p.
     bind_res (get_wal_settings e config) (\<lambda>wal.
       (let full_path = path_append p ''db.akumuli'' in
        if exists_path (files e) full_path then
          (case aku_remove_database e full_path (wal_path wal) True (files e) of
             (status, f') \<Rightarrow>
               if status \<noteq> 0
               then Throw (RuntimeError (''can't delete database: '' @ apr_strerror e status))
               else Ok ([Stdout (''**OK** database at `'' @ quoted p @ ''` deleted'')], f'))
        else Ok ([Stdout ''**ERROR** database file doesn't exists''], files e))))))"

definition cmd_dump ::
  "(string \<Rightarrow> string option \<Rightarrow> filesystem \<Rightarrow> nat \<times> filesystem) \<Rightarrow>
   env \<Rightarrow> string option \<Rightarrow> string option \<Rightarrow> (event list \<times> filesystem) res" where
  "cmd_dump report e cmd_config_path outfname =
     bind_res (get_config_path e cmd_config_path) (\<lambda>config_path.
     bind_res (read_config_file e config_path) (\<lambda>config.
     bind_res (get_path e config) (\<lambda>p.
       (let full_path = path_append p ''db.akumuli'' in
        if exists_path (files e) full_path then
          (case report full_path outfname (files e) of
             (status, f') \<Rightarrow>
               if status \<noteq> 0
               then Throw (RuntimeError (''can't dump debug info: '' @ apr_strerror e status))
               else
                 (case outfname of
                    Some out \<Rightarrow>
                      Ok ([Stdout (''**OK** `'' @ out @ ''` successfully generated for `''
                                   @ quoted p @ ''`'')], f')
                  | None \<Rightarrow> Ok ([], f')))
        else Ok ([Stdout ''**ERROR** database file doesn't exists''], files e)))))"

definition cmd_dump_debug_information ::
  "env \<Rightarrow> string option \<Rightarrow> string option \<Rightarrow> (event list \<times> filesystem) res" where
  "cmd_dump_debug_information e = cmd_dump (aku_debug_report_dump e) e"

definition cmd_dump_recovery_debug_information ::
  "env \<Rightarrow> string option \<Rightarrow> string option \<Rightarrow> (event list \<times> filesystem) res" where
  "cmd_dump_recovery_debug_information e = cmd_dump (aku_debug_recovery_report_dump e) e"

section \<open>\<^verbatim>\<open>main\<close>\<close>

text \<open>
  The parsed command line (\<^verbatim>\<open>po::variables_map\<close>): one field for each option of
  \<^verbatim>\<open>main\<close>. The body of \<^verbatim>\<open>main\<close> tests the options in the order of the source; every
  branch ends in \<^verbatim>\<open>exit(EXIT_SUCCESS)\<close>, and the two \<^verbatim>\<open>catch\<close> clauses turn any exception
  into the failure line and \<^verbatim>\<open>exit(EXIT_FAILURE)\<close>. The result of a run is the exit code,
  the events and the file system left, or \<open>Crashed\<close> where the run met undefined behaviour.
\<close>

record cmdline =
  opt_help :: bool
  opt_config :: "string option"
  opt_create :: bool
  opt_allocate :: bool
  opt_delete :: bool
  opt_CI :: bool
  opt_init :: bool
  opt_init_expandable :: bool
  opt_disable_wal :: bool
  opt_debug_dump :: "string option"
  opt_debug_recovery_dump :: "string option"
  opt_version :: bool

definition EXIT_SUCCESS :: nat where "EXIT_SUCCESS = 0"
definition EXIT_FAILURE :: nat where "EXIT_FAILURE = 1"

datatype run = Exited nat "event list" filesystem | Crashed string

definition created_line :: "string \<Rightarrow> string" where
  "created_line p = ''**OK** configuration file created at: `'' @ quoted p @ ''`''"

definition outfile :: "string \<Rightarrow> string option" where
  "outfile p = (if p = ''stdout'' then None else Some p)"

definition main_body :: "env \<Rightarrow> cmdline \<Rightarrow> (event list \<times> filesystem) res" where
  "main_body e vm =
     bind_res (get_config_path e (opt_config vm)) (\<lambda>p.
       if opt_init vm then
         bind_res (init_config e p (opt_disable_wal vm)) (\<lambda>f'.
           Ok ([Stdout (created_line p)], f'))
       else if opt_init_expandable vm then
         bind_res (init_exp_config e p (opt_disable_wal vm)) (\<lambda>f'.
           Ok ([Stdout (created_line p)], f'))
       else if opt_create vm then
         cmd_create_database e (opt_config vm) False (opt_allocate vm)
       else if opt_CI vm then
         cmd_create_database e (opt_config vm) True False
       else if opt_delete vm then
         cmd_delete_database e (opt_config vm)
       else
         (case opt_debug_dump vm of
            Some d \<Rightarrow> cmd_dump_debug_information e (opt_config vm) (outfile d)
          | None \<Rightarrow>
              (case opt_debug_recovery_dump vm of
                 Some d \<Rightarrow> cmd_dump_recovery_debug_information e (opt_config vm) (outfile d)
               | None \<Rightarrow>
                   if opt_version vm then Ok ([Stdout (AKU_VERSION e)], files e)
                   else bind_res (cmd_run_server e (opt_config vm)) (\<lambda>evs.
                          Ok (evs, files e)))))"

definition main :: "env \<Rightarrow> cmdline \<Rightarrow> run" where
  "main e vm =
     (if opt_help vm then Exited EXIT_SUCCESS [PrintHelp] (files e)
      else
        (case main_body e vm of
           Ok (evs, f') \<Rightarrow> Exited EXIT_SUCCESS evs f'
         | Throw ex \<Rightarrow> Exited EXIT_FAILURE [StderrFailure ex] (files e)
         | Undefined_Behaviour w \<Rightarrow> Crashed w))"

definition no_command :: "cmdline \<Rightarrow> bool" where
  "no_command vm =
     (\<not> opt_help vm \<and> \<not> opt_init vm \<and> \<not> opt_init_expandable vm \<and> \<not> opt_create vm
      \<and> \<not> opt_CI vm \<and> \<not> opt_delete vm \<and> opt_debug_dump vm = None
      \<and> opt_debug_recovery_dump vm = None \<and> \<not> opt_version vm)"

section \<open>Sample environments\<close>

text \<open>
  A machine on which \<^verbatim>\<open>wordexp\<close> leaves a path as it is, every file can be created, the
  engine calls succeed and the signal handler reports every server it stopped; only the
  file system varies. The command line with no option set runs the server.
\<close>

definition sample_env :: "filesystem \<Rightarrow> env" where
  "sample_env f =
     \<lparr>files = f, HOME = ''/home/u'', wordexp = (\<lambda>s. Some [s]), can_create = (\<lambda>p. True),
      hardware_concurrency = 4, AKU_VERSION = ''0.8.80'', sig_wait = (\<lambda>ids. ids),
      apr_strerror = (\<lambda>st. ''error''),
      aku_create_database_ex = (\<lambda>nm p q nv vs al g. (0, g)),
      aku_remove_database = (\<lambda>p w fo g. (0, g)),
      aku_debug_report_dump = (\<lambda>p out g. (0, g)),
      aku_debug_recovery_report_dump = (\<lambda>p out g. (0, g))\<rparr>"

definition run_cmdline :: cmdline where
  "run_cmdline =
     \<lparr>opt_help = False, opt_config = None, opt_create = False, opt_allocate = False,
      opt_delete = False, opt_CI = False, opt_init = False, opt_init_expandable = False,
      opt_disable_wal = False, opt_debug_dump = None, opt_debug_recovery_dump = None,
      opt_version = False\<rparr>"

definition init_cmdline :: cmdline where
  "init_cmdline = run_cmdline\<lparr>opt_init := True\<rparr>"

definition http_only_config :: string where
  "http_only_config = unlines [''path=/db'', ''[HTTP]'', ''port=8181'']"


definition no_manifest_files :: filesystem where
  "no_manifest_files =
     [''/home/u/.akumulid'' \<mapsto> File http_only_config, ''/db'' \<mapsto> Directory]"


text \<open>
  The lines of \<^verbatim>\<open>DEFAULT_CONFIG\<close> once formatted: \<^verbatim>\<open>%1%\<close> replaced by the argument
  \<open>a\<close> and each \<^verbatim>\<open>%%\<close> by one percent sign.
\<close>

definition formatted_config_lines :: "string \<Rightarrow> string list" where
  "formatted_config_lines a =
    [
     ''# akumulid configuration file (generated automatically).'',
     '''',
     ''# path to database files.  Default values is  ~/.akumuli.'',
     ''path=~/.akumuli'',
     '''',
     ''# Number of volumes used  to store data.  Each volume  is'',
     ''# 4Gb in size by default and allocated beforehand. To change number'',
     ''# of  volumes  they  should  change  `nvolumes`  value in'',
     ''# configuration and restart daemon.'',
     ''nvolumes='' @ a,
     '''',
     ''# Size of the individual volume. You can use MB or GB suffix.'',
     ''# Default value is 4GB (if value is not set).'',
     ''volume_size=4GB'',
     '''',
     '''',
     ''# HTTP API endpoint configuration'',
     '''',
     ''[HTTP]'',
     ''# port number'',
     ''port=8181'',
     '''',
     '''',
     ''# TCP ingestion server config (delete to disable)'',
     '''',
     ''[TCP]'',
     ''# port number'',
     ''port=8282'',
     ''# worker pool size (0 means that the size of the pool will be chosen automatically)'',
     ''pool_size=0'',
     '''',
     '''',
     ''# UDP ingestion server config (delete to disable)'',
     '''',
     ''[UDP]'',
     ''# port number'',
     ''port=8383'',
     ''# worker pool size'',
     ''pool_size=1'',
     '''',
     ''# OpenTSDB telnet-style data connection enabled (remove this section to disable).'',
     '''',
     ''[OpenTSDB]'',
     ''# port number'',
     ''port=4242'',
     '''',
     '''',
     ''# Logging configuration'',
     ''# This is just a log4cxx configuration without any modifications'',
     '''',
     ''log4j.rootLogger=all, file'',
     ''log4j.appender.file=org.apache.log4j.DailyRollingFileAppender'',
     ''log4j.appender.file.layout=org.apache.log4j.PatternLayout'',
     ''log4j.appender.file.layout.ConversionPattern=%d{yyyy-MM-dd HH:mm:ss,SSS} [%t] %c [%p] %m%n'',
     ''log4j.appender.file.filename=/tmp/akumuli.log'',
     ''log4j.appender.file.datePattern='.'yyyy-MM-dd'',
     '''']"

text \<open>
  The tree that \<^verbatim>\<open>read_ini\<close> builds from the file \<^verbatim>\<open>init_config\<close> writes. The log4j
  lines follow the \<^verbatim>\<open>[OpenTSDB]\<close> header and so are keys of that section; the \<^verbatim>\<open>[WAL]\<close>
  section is there unless \<^verbatim>\<open>--disable-wal\<close> was given.
\<close>

definition default_sections :: "(string \<times> ptree) list" where
  "default_sections =
     [(''path'', PTree ''~/.akumuli'' []), (''nvolumes'', PTree ''4'' []),
      (''volume_size'', PTree ''4GB'' []),
      (''HTTP'', PTree [] [(''port'', PTree ''8181'' [])]),
      (''TCP'', PTree [] [(''port'', PTree ''8282'' []), (''pool_size'', PTree ''0'' [])]),
      (''UDP'', PTree [] [(''port'', PTree ''8383'' []), (''pool_size'', PTree ''1'' [])]),
      (''OpenTSDB'',
       PTree []
        [(''port'', PTree ''4242'' []),
         (''log4j.rootLogger'', PTree ''all, file'' []),
         (''log4j.appender.file'', PTree ''org.apache.log4j.DailyRollingFileAppender'' []),
         (''log4j.appender.file.layout'', PTree ''org.apache.log4j.PatternLayout'' []),
         (''log4j.appender.file.layout.ConversionPattern'',
          PTree ''%d{yyyy-MM-dd HH:mm:ss,SSS} [%t] %c [%p] %m%n'' []),
         (''log4j.appender.file.filename'', PTree ''/tmp/akumuli.log'' []),
         (''log4j.appender.file.datePattern'', PTree '''.'yyyy-MM-dd'' [])])]"

definition default_tree :: "bool \<Rightarrow> ptree" where
  "default_tree disable_wal =
     PTree []
       (default_sections @
        (if disable_wal then []
         else [(''WAL'', PTree [] [(''path'', PTree ''~/.akumuli'' []),
                                   (''volume_size'', PTree ''256MB'' []),
                                   (''nvolumes'', PTree ''4'' [])])]))"

section \<open>The query pipeline: \<^verbatim>\<open>QueryResultsPooler\<close>\<close>

text \<open>
  The header \<^verbatim>\<open>query_results_pooler.h\<close> declares the fields and the operations of the
  pooler; the bodies of the operations, the cursor and the formatters are in files that are
  not part of the sources at hand. The record below has the fields of the header, named
  without the trailing underscore (\<open>rdbuf_size\<close> is \<^verbatim>\<open>rdbuf_.size()\<close>, the capacity;
  \<open>rdbuf\<close> holds the initialised items; \<open>api_endpoint\<close> is \<^verbatim>\<open>endpoint_\<close>); the
  operations follow the specification and say so.
\<close>

type_synonym aku_Status = nat

definition AKU_SUCCESS :: aku_Status where
  "AKU_SUCCESS = 0"

datatype ApiEndpoint = QUERY | SUGGEST | SEARCH

datatype pooler_error = NotStarted | AlreadyStarted

text \<open>
  Modelled from the spec: \<^verbatim>\<open>DbCursor\<close>, whose declaration (\<^verbatim>\<open>storage_api.h\<close>) is missing.
  A cursor "produces a finite lazy sequence of samples; not restartable": the samples still
  to be read, and the status the engine ends the sequence with, which the cursor surfaces
  once the samples before it have been read.
\<close>

record 's DbCursor =
  pending :: "'s list"
  final_status :: aku_Status

definition cursor_is_done :: "'s DbCursor \<Rightarrow> bool" where
  "cursor_is_done c = (pending c = [])"

definition cursor_error :: "'s DbCursor \<Rightarrow> aku_Status" where
  "cursor_error c = (if pending c = [] then final_status c else AKU_SUCCESS)"

definition cursor_read :: "'s DbCursor \<Rightarrow> nat \<Rightarrow> 's list \<times> 's DbCursor" where
  "cursor_read c k = (take k (pending c), c\<lparr>pending := drop k (pending c)\<rparr>)"

record 's QueryResultsPooler =
  query_text :: string
  session :: "string \<Rightarrow> 's DbCursor"
  cursor :: "'s DbCursor option"
  formatter :: "('s \<Rightarrow> string) option"
  rdbuf :: "'s list"
  rdbuf_size :: nat
  rdbuf_pos :: nat
  rdbuf_top :: nat
  api_endpoint :: ApiEndpoint
  error_produced :: bool

text \<open>
  Modelled from the spec: the constructor and the state of the pooler. A pooler is
  \<open>Created\<close> until \<^verbatim>\<open>start\<close> has opened its cursor and \<open>Started\<close> from then on.
\<close>

definition new_pooler :: "(string \<Rightarrow> 's DbCursor) \<Rightarrow> nat \<Rightarrow> ApiEndpoint \<Rightarrow> 's QueryResultsPooler" where
  "new_pooler sess readbufsize ep =
     \<lparr>query_text = [], session = sess, cursor = None, formatter = None,
      rdbuf = [], rdbuf_size = readbufsize, rdbuf_pos = 0, rdbuf_top = 0,
      api_endpoint = ep, error_produced = False\<rparr>"

datatype pooler_state = Created | Started

definition state_of :: "'s QueryResultsPooler \<Rightarrow> pooler_state" where
  "state_of p = (if cursor p = None then Created else Started)"

text \<open>
  Modelled from the spec: \<^verbatim>\<open>throw_if_started\<close> and \<^verbatim>\<open>throw_if_not_started\<close>, the two
  guards the header declares ("rejects \<^verbatim>\<open>read_some\<close> with \<open>NotStarted\<close>", "rejects further
  \<^verbatim>\<open>append\<close> with \<open>AlreadyStarted\<close>").
\<close>

definition throw_if_started :: "'s QueryResultsPooler \<Rightarrow> pooler_error + unit" where
  "throw_if_started p = (if cursor p \<noteq> None then Inl AlreadyStarted else Inr ())"

definition throw_if_not_started :: "'s QueryResultsPooler \<Rightarrow> pooler_error + unit" where
  "throw_if_not_started p = (if cursor p = None then Inl NotStarted else Inr ())"

text \<open>
  Modelled from the spec: \<^verbatim>\<open>append\<close> "is legal only in \<open>Created\<close>; it accumulates the
  query text"; \<^verbatim>\<open>start\<close> "opens a cursor through the session, initializes the formatter
  according to \<open>endpoint\<close>, and transitions to \<open>Started\<close>; calling it twice fails with
  \<open>AlreadyStarted\<close>". The formatter classes are a parameter.
\<close>

definition append_text ::
  "'s QueryResultsPooler \<Rightarrow> string \<Rightarrow> pooler_error + 's QueryResultsPooler" where
  "append_text p chunk =
     (case throw_if_started p of
        Inl err \<Rightarrow> Inl err
      | Inr u \<Rightarrow> Inr (p\<lparr>query_text := query_text p @ chunk\<rparr>))"

definition start ::
  "(ApiEndpoint \<Rightarrow> 's \<Rightarrow> string) \<Rightarrow> 's QueryResultsPooler \<Rightarrow>
   pooler_error + 's QueryResultsPooler" where
  "start formatters p =
     (case throw_if_started p of
        Inl err \<Rightarrow> Inl err
      | Inr u \<Rightarrow>
          Inr (p\<lparr>cursor := Some (session p (query_text p)),
                 formatter := Some (formatters (api_endpoint p))\<rparr>))"

text \<open>
  Modelled from the spec: \<^verbatim>\<open>get_error\<close> "exposes the first non-success status seen from
  the cursor".
\<close>

definition get_error :: "'s QueryResultsPooler \<Rightarrow> aku_Status" where
  "get_error p = (case cursor p of None \<Rightarrow> AKU_SUCCESS | Some c \<Rightarrow> cursor_error c)"

text \<open>
  Modelled from the spec: \<^verbatim>\<open>read_some\<close> "writes as many whole formatted samples as fit
  into \<open>buf\<close>"; "if the internal buffer is empty, it pulls the next samples from the
  cursor"; a sample that does not fit "is held back until the next call"; \<open>complete\<close>
  "means the cursor is exhausted and the internal buffer has drained". When the cursor has
  surfaced a non-success status, the calls "flush any already-formatted bytes, then report
  the error exactly once": that call writes the text of the error and sets
  \<^verbatim>\<open>error_produced_\<close>; "subsequent calls will not repeat it; they report
  \<open>complete = true\<close>". The text of a status (\<^verbatim>\<open>aku_error_message\<close>) is a parameter.
\<close>

fun write_samples :: "('s \<Rightarrow> string) \<Rightarrow> nat \<Rightarrow> 's list \<Rightarrow> string \<times> nat" where
  "write_samples fmt space [] = ([], 0)"
| "write_samples fmt space (s # ss) =
     (if length (fmt s) \<le> space
      then (case write_samples fmt (space - length (fmt s)) ss of
              (out, k) \<Rightarrow> (fmt s @ out, Suc k))
      else ([], 0))"

definition refill :: "'s QueryResultsPooler \<Rightarrow> 's DbCursor \<Rightarrow> 's QueryResultsPooler" where
  "refill p c =
     (case cursor_read c (rdbuf_size p) of
        (items, c') \<Rightarrow>
          p\<lparr>rdbuf := items, rdbuf_pos := 0, rdbuf_top := length items, cursor := Some c'\<rparr>)"

definition drained :: "'s QueryResultsPooler \<Rightarrow> bool" where
  "drained p = (rdbuf_pos p = rdbuf_top p)"

definition exhausted :: "'s QueryResultsPooler \<Rightarrow> bool" where
  "exhausted p = (case cursor p of None \<Rightarrow> True | Some c \<Rightarrow> cursor_is_done c)"

definition read_some ::
  "(aku_Status \<Rightarrow> string) \<Rightarrow> 's QueryResultsPooler \<Rightarrow> nat \<Rightarrow>
   pooler_error + ((string \<times> bool) \<times> 's QueryResultsPooler)" where
  "read_some error_text p buf_size =
     (case (throw_if_not_started p, cursor p) of
        (Inl err, c) \<Rightarrow> Inl err
      | (Inr u, None) \<Rightarrow> Inl NotStarted
      | (Inr u, Some c0) \<Rightarrow>
          (let p1 = (if drained p \<and> \<not> cursor_is_done c0 then refill p c0 else p);
               fmt = (case formatter p1 of Some f \<Rightarrow> f | None \<Rightarrow> (\<lambda>s. []))
           in if \<not> drained p1 then
                (case write_samples fmt buf_size
                        (drop (rdbuf_pos p1) (take (rdbuf_top p1) (rdbuf p1))) of
                   (out, k) \<Rightarrow>
                     (let p2 = p1\<lparr>rdbuf_pos := rdbuf_pos p1 + k\<rparr>
                      in Inr ((out, drained p2 \<and> exhausted p2 \<and> get_error p2 = AKU_SUCCESS),
                              p2)))
              else if get_error p1 \<noteq> AKU_SUCCESS \<and> \<not> error_produced p1 then
                Inr ((take buf_size (error_text (get_error p1)), False),
                     p1\<lparr>error_produced := True\<rparr>)
              else Inr (([], exhausted p1), p1)))"

text \<open>The calls an HTTP response writer makes one after the other, with their results.\<close>

fun read_many ::
  "(aku_Status \<Rightarrow> string) \<Rightarrow> 's QueryResultsPooler \<Rightarrow> nat list \<Rightarrow>
   pooler_error + ((string \<times> bool) list \<times> 's QueryResultsPooler)" where
  "read_many error_text p [] = Inr ([], p)"
| "read_many error_text p (n # ns) =
     (case read_some error_text p n of
        Inl err \<Rightarrow> Inl err
      | Inr (r, p') \<Rightarrow>
          (case read_many error_text p' ns of
             Inl err \<Rightarrow> Inl err
           | Inr (rs, p'') \<Rightarrow> Inr (r # rs, p'')))"

text \<open>Sample poolers: samples are numbers, written in decimal, one per line.\<close>

definition failing_session :: "string \<Rightarrow> nat DbCursor" where
  "failing_session q = \<lparr>pending = [7, 8], final_status = 5\<rparr>"

definition line_formatters :: "ApiEndpoint \<Rightarrow> nat \<Rightarrow> string" where
  "line_formatters ep s = show_nat s @ [CHR 0x0A]"

definition sample_error_text :: "aku_Status \<Rightarrow> string" where
  "sample_error_text st = ''-error '' @ show_nat st"

definition created_pooler :: "nat QueryResultsPooler" where
  "created_pooler = new_pooler failing_session 1024 QUERY"

definition started_pooler :: "nat QueryResultsPooler" where
  "started_pooler =
     created_pooler\<lparr>cursor := Some (failing_session []),
                     formatter := Some (line_formatters QUERY)\<rparr>"

definition errored_pooler :: "nat QueryResultsPooler" where
  "errored_pooler =
     started_pooler\<lparr>cursor := Some \<lparr>pending = [], final_status = 5\<rparr>,
                     rdbuf := [7, 8], rdbuf_pos := 2, rdbuf_top := 2\<rparr>"

section \<open>The UDP worker: one batch of datagrams\<close>

text \<open>
  \<^verbatim>\<open>UdpServer::worker\<close> (lines 994-1027): what a worker does with a batch that
  \<^verbatim>\<open>recvmmsg\<close> returned while the stop flag was 0. The parser class
  (\<^verbatim>\<open>RESPProtocolParser\<close>) is not part of the sources at hand; it is a parameter: the
  state of a newly constructed parser, what \<^verbatim>\<open>parse_next\<close> does to the parser and to the
  session on a datagram (it returns, or throws \<^verbatim>\<open>StreamError\<close>, \<^verbatim>\<open>DatabaseError\<close> or
  something else), and what \<^verbatim>\<open>close\<close> does to the session.
\<close>

datatype parse_exn = StreamError string | DatabaseError string | OtherError string

datatype ('p, 'db) parsed = Parsed 'p 'db | Raised parse_exn 'p 'db

record ('p, 'db) parser_ops =
  new_parser :: 'p
  parse_next :: "'p \<Rightarrow> 'db \<Rightarrow> string \<Rightarrow> ('p, 'db) parsed"
  parser_close :: "'p \<Rightarrow> 'db \<Rightarrow> 'db"

text \<open>
  The worker: its session (\<^verbatim>\<open>spout\<close>), the counters of its current \<^verbatim>\<open>IOBuf\<close>, the
  lines written with \<^verbatim>\<open>logger_.error()\<close>, and a record of every call of
  \<^verbatim>\<open>parse_next\<close>: the state of the parser at the call and the datagram handed over.
\<close>

record IOBuf =
  pps :: nat
  bps :: nat

definition new_IOBuf :: IOBuf where
  "new_IOBuf = \<lparr>pps = 0, bps = 0\<rparr>"

record ('p, 'db) worker =
  spout :: 'db
  iobuf :: IOBuf
  errors :: "string list"
  calls :: "('p \<times> string) list"

text \<open>
  The \<^verbatim>\<open>for\<close> loop over the datagrams of the batch (lines 1004-1023). A
  \<^verbatim>\<open>StreamError\<close> or a \<^verbatim>\<open>DatabaseError\<close> is logged and followed by \<^verbatim>\<open>break\<close>: the loop
  ends there. Any other exception leaves the loop and the \<^verbatim>\<open>while\<close> around it.
\<close>

datatype ('p, 'db) loop_exit =
    LoopDone 'p "('p, 'db) worker"
  | LoopBreak 'p "('p, 'db) worker"
  | LoopThrown string "('p, 'db) worker"

fun parse_loop ::
  "('p, 'db) parser_ops \<Rightarrow> 'p \<Rightarrow> ('p, 'db) worker \<Rightarrow> string list \<Rightarrow> ('p, 'db) loop_exit" where
  "parse_loop ops ps w [] = LoopDone ps w"
| "parse_loop ops ps w (m # ms) =
     (let w1 = w\<lparr>iobuf := (iobuf w)\<lparr>bps := bps (iobuf w) + length m\<rparr>,
                 calls := calls w @ [(ps, m)]\<rparr>
      in case parse_next ops ps (spout w1) m of
           Parsed ps' db' \<Rightarrow> parse_loop ops ps' (w1\<lparr>spout := db'\<rparr>) ms
         | Raised (StreamError what) ps' db' \<Rightarrow>
             LoopBreak ps' (w1\<lparr>spout := db', errors := errors w1 @ [what]\<rparr>)
         | Raised (DatabaseError what) ps' db' \<Rightarrow>
             LoopBreak ps' (w1\<lparr>spout := db', errors := errors w1 @ [what]\<rparr>)
         | Raised (OtherError what) ps' db' \<Rightarrow>
             LoopThrown what (w1\<lparr>spout := db'\<rparr>))"

definition loop_worker :: "('p, 'db) loop_exit \<Rightarrow> ('p, 'db) worker" where
  "loop_worker x = (case x of LoopDone ps w \<Rightarrow> w | LoopBreak ps w \<Rightarrow> w | LoopThrown what w \<Rightarrow> w)"

text \<open>
  One turn of the \<^verbatim>\<open>while\<close> loop after the test of the stop flag: count the batch, make
  a parser, run the loop, replace the \<^verbatim>\<open>IOBuf\<close> when the batch was not empty, close the
  parser. An exception that is neither of the two caught inside is logged by the
  \<^verbatim>\<open>catch(...)\<close> of line 1029 and ends the worker.
\<close>

datatype ('p, 'db) turn = Continue "('p, 'db) worker" | Terminated "('p, 'db) worker"

definition after_loop ::
  "('p, 'db) parser_ops \<Rightarrow> string list \<Rightarrow> 'p \<Rightarrow> ('p, 'db) worker \<Rightarrow> ('p, 'db) worker" where
  "after_loop ops batch ps w =
     (if batch \<noteq> [] then w\<lparr>iobuf := new_IOBuf\<rparr> else w)
       \<lparr>spout := parser_close ops ps (spout w)\<rparr>"

definition worker_batch ::
  "('p, 'db) parser_ops \<Rightarrow> ('p, 'db) worker \<Rightarrow> string list \<Rightarrow> ('p, 'db) turn" where
  "worker_batch ops w batch =
     (case parse_loop ops (new_parser ops)
             (w\<lparr>iobuf := (iobuf w)\<lparr>pps := pps (iobuf w) + 1\<rparr>\<rparr>) batch of
        LoopDone ps w' \<Rightarrow> Continue (after_loop ops batch ps w')
      | LoopBreak ps w' \<Rightarrow> Continue (after_loop ops batch ps w')
      | LoopThrown what w' \<Rightarrow> Terminated (w'\<lparr>errors := errors w' @ [what]\<rparr>))"

fun worker_batches ::
  "('p, 'db) parser_ops \<Rightarrow> ('p, 'db) worker \<Rightarrow> string list list \<Rightarrow> ('p, 'db) turn" where
  "worker_batches ops w [] = Continue w"
| "worker_batches ops w (b # bs) =
     (case worker_batch ops w b of
        Continue w' \<Rightarrow> worker_batches ops w' bs
      | Terminated w' \<Rightarrow> Terminated w')"

definition turn_worker :: "('p, 'db) turn \<Rightarrow> ('p, 'db) worker" where
  "turn_worker t = (case t of Continue w \<Rightarrow> w | Terminated w \<Rightarrow> w)"

text \<open>
  A sample parser: a datagram is one sample line; a line that starts with \<^verbatim>\<open>+\<close> is
  written to the session, any other line is a protocol error. The state of the parser
  counts the lines it accepted.
\<close>

definition line_parser :: "(nat, string list) parser_ops" where
  "line_parser =
     \<lparr>new_parser = 0,
      parse_next = (\<lambda>ps db m.
         if m \<noteq> [] \<and> hd m = CHR ''+'' then Parsed (Suc ps) (db @ [m])
         else Raised (StreamError ''unexpected parameter id format'') ps db),
      parser_close = (\<lambda>ps db. db)\<rparr>"

definition idle_worker :: "(nat, string list) worker" where
  "idle_worker = \<lparr>spout = [], iobuf = new_IOBuf, errors = [], calls = []\<rparr>"

section \<open>The UDP server: the stop protocol\<close>

text \<open>
  \<^verbatim>\<open>UdpServer::stop\<close> (lines 908-916) and the receive loop of \<^verbatim>\<open>UdpServer::worker\<close>
  (lines 973-1033) run on different threads. The model is an interleaving of their steps
  on a shared state, every step atomic and every access to \<^verbatim>\<open>stop_\<close> sequentially
  consistent. A datagram is the wake byte that \<^verbatim>\<open>sendByteToLocalhost\<close> sends, or data
  from a client. Each thread has a program counter: a worker is about to call the batch
  receive, or has returned from it with a batch and is about to test \<^verbatim>\<open>stop_\<close>, or has
  found the flag 0 and parses the batch, or waits in \<^verbatim>\<open>stop_barrier_.wait()\<close> (line 1033),
  or has returned from it; \<^verbatim>\<open>stop()\<close> has not been called, or has executed its lines up to
  the store, the send, the arrival at the barrier, the return from it, the \<^verbatim>\<open>close\<close>.
\<close>

datatype dgram = Wake | Data string

datatype worker_pc =
    Receiving
  | Received "dgram list"
  | Parsing "dgram list"
  | AtStopBarrier
  | WorkerDone

datatype stop_pc = NotCalled | FlagStored | ByteSent | InStopBarrier | PastStopBarrier | SocketClosed

record udp_server =
  stop_flag :: nat
  queue :: "dgram list"
  worker_pcs :: "worker_pc list"
  stopper :: stop_pc
  arrived :: nat
  parsed :: "dgram list"
  sockfd_open :: bool

definition udp_init :: "nat \<Rightarrow> udp_server" where
  "udp_init n =
     \<lparr>stop_flag = 0, queue = [], worker_pcs = replicate n Receiving, stopper = NotCalled,
      arrived = 0, parsed = [], sockfd_open = True\<rparr>"

text \<open>
  The steps. A client sends a datagram; the network loses one; the batch receive of
  worker \<open>i\<close> returns the first \<open>k\<close> queued datagrams, at most \<^verbatim>\<open>NPACKETS\<close> (the constant
  is a parameter, \<open>np\<close>); the worker tests the flag (line 990) and either breaks out of the
  loop and arrives at the stop barrier or goes on to parse; it hands the first \<open>k\<close>
  datagrams of its batch to the parser (all of them, or fewer after a logged error and
  \<^verbatim>\<open>break\<close>) and receives again; an exception in the receive call or in the parser takes
  it to the \<^verbatim>\<open>catch(...)\<close> and on to the barrier. The five steps of \<^verbatim>\<open>stop()\<close> are taken
  in the order of its lines.
\<close>

datatype action =
    ClientSend string
  | Lose nat
  | Recv nat nat
  | TestStop nat
  | ParseBatch nat nat
  | WorkerThrow nat nat
  | WorkerLeave nat
  | StopStore
  | StopSend
  | StopArrive
  | StopLeave
  | StopClose

text \<open>
  Modelled from the spec: the barrier class, which is not part of the sources at hand. The
  stop barrier is "sized N+1": \<^verbatim>\<open>wait()\<close> returns once N+1 threads have called it, N
  being the number of workers. A thread that calls \<^verbatim>\<open>wait()\<close> is counted in \<open>arrived\<close>;
  it returns (\<open>WorkerLeave\<close>, \<open>StopLeave\<close>) when the count is N+1.
\<close>

fun udp_step :: "nat \<Rightarrow> udp_server \<Rightarrow> action \<Rightarrow> udp_server option" where
  "udp_step np s (ClientSend payload) = Some (s\<lparr>queue := queue s @ [Data payload]\<rparr>)"
| "udp_step np s (Lose k) =
     (if k < length (queue s)
      then Some (s\<lparr>queue := take k (queue s) @ drop (Suc k) (queue s)\<rparr>)
      else None)"
| "udp_step np s (Recv i k) =
     (if i < length (worker_pcs s) \<and> worker_pcs s ! i = Receiving \<and> sockfd_open s
         \<and> k \<le> np \<and> k \<le> length (queue s)
      then Some (s\<lparr>queue := drop k (queue s),
                   worker_pcs := (worker_pcs s)[i := Received (take k (queue s))]\<rparr>)
      else None)"
| "udp_step np s (TestStop i) =
     (if i < length (worker_pcs s) then
        (case worker_pcs s ! i of
           Received batch \<Rightarrow>
             if stop_flag s \<noteq> 0
             then Some (s\<lparr>worker_pcs := (worker_pcs s)[i := AtStopBarrier],
                          arrived := Suc (arrived s)\<rparr>)
             else Some (s\<lparr>worker_pcs := (worker_pcs s)[i := Parsing batch]\<rparr>)
         | _ \<Rightarrow> None)
      else None)"
| "udp_step np s (ParseBatch i k) =
     (if i < length (worker_pcs s) then
        (case worker_pcs s ! i of
           Parsing batch \<Rightarrow>
             if k \<le> length batch
             then Some (s\<lparr>parsed := parsed s @ take k batch,
                          worker_pcs := (worker_pcs s)[i := Receiving]\<rparr>)
             else None
         | _ \<Rightarrow> None)
      else None)"
| "udp_step np s (WorkerThrow i k) =
     (if i < length (worker_pcs s) then
        (case worker_pcs s ! i of
           Receiving \<Rightarrow>
             Some (s\<lparr>worker_pcs := (worker_pcs s)[i := AtStopBarrier],
                     arrived := Suc (arrived s)\<rparr>)
         | Parsing batch \<Rightarrow>
             if k \<le> length batch
             then Some (s\<lparr>parsed := parsed s @ take k batch,
                          worker_pcs := (worker_pcs s)[i := AtStopBarrier],
                          arrived := Suc (arrived s)\<rparr>)
             else None
         | _ \<Rightarrow> None)
      else None)"
| "udp_step np s (WorkerLeave i) =
     (if i < length (worker_pcs s) \<and> worker_pcs s ! i = AtStopBarrier
         \<and> arrived s = Suc (length (worker_pcs s))
      then Some (s\<lparr>worker_pcs := (worker_pcs s)[i := WorkerDone]\<rparr>)
      else None)"
| "udp_step np s StopStore =
     (if stopper s = NotCalled then Some (s\<lparr>stop_flag := 1, stopper := FlagStored\<rparr>)
      else None)"
| "udp_step np s StopSend =
     (if stopper s = FlagStored
      then Some (s\<lparr>queue := queue s @ [Wake], stopper := ByteSent\<rparr>)
      else None)"
| "udp_step np s StopArrive =
     (if stopper s = ByteSent
      then Some (s\<lparr>stopper := InStopBarrier, arrived := Suc (arrived s)\<rparr>)
      else None)"
| "udp_step np s StopLeave =
     (if stopper s = InStopBarrier \<and> arrived s = Suc (length (worker_pcs s))
      then Some (s\<lparr>stopper := PastStopBarrier\<rparr>)
      else None)"
| "udp_step np s StopClose =
     (if stopper s = PastStopBarrier
      then Some (s\<lparr>stopper := SocketClosed, sockfd_open := False\<rparr>)
      else None)"

fun udp_run :: "nat \<Rightarrow> udp_server \<Rightarrow> action list \<Rightarrow> udp_server option" where
  "udp_run np s [] = Some s"
| "udp_run np s (a # as) =
     (case udp_step np s a of None \<Rightarrow> None | Some s' \<Rightarrow> udp_run np s' as)"

text \<open>Where the wake byte is, and which workers have left the receive loop.\<close>

definition left_loop :: "worker_pc \<Rightarrow> bool" where
  "left_loop pc = (pc = AtStopBarrier \<or> pc = WorkerDone)"

definition batch_of :: "worker_pc \<Rightarrow> dgram list" where
  "batch_of pc = (case pc of Received b \<Rightarrow> b | Parsing b \<Rightarrow> b | _ \<Rightarrow> [])"

definition is_parsing :: "worker_pc \<Rightarrow> bool" where
  "is_parsing pc = (case pc of Parsing b \<Rightarrow> True | _ \<Rightarrow> False)"

definition wake_in_flight :: "udp_server \<Rightarrow> bool" where
  "wake_in_flight s =
     (Wake \<in> set (queue s) \<or> list_ex (\<lambda>pc. Wake \<in> set (batch_of pc)) (worker_pcs s))"

definition stop_arrived :: "stop_pc \<Rightarrow> nat" where
  "stop_arrived pc =
     (if pc = InStopBarrier \<or> pc = PastStopBarrier \<or> pc = SocketClosed then 1 else 0)"

definition flag_ok :: "udp_server \<Rightarrow> bool" where
  "flag_ok s =
     ((stopper s = NotCalled \<longrightarrow> stop_flag s = 0) \<and> (stopper s \<noteq> NotCalled \<longrightarrow> stop_flag s = 1))"

definition wake_ok :: "udp_server \<Rightarrow> bool" where
  "wake_ok s = (stopper s = NotCalled \<or> stopper s = FlagStored \<longrightarrow> \<not> wake_in_flight s)"

definition parse_ok :: "udp_server \<Rightarrow> bool" where
  "parse_ok s =
     (Wake \<notin> set (parsed s)
      \<and> list_all (\<lambda>pc. is_parsing pc \<longrightarrow> Wake \<notin> set (batch_of pc)) (worker_pcs s))"

definition barrier_ok :: "udp_server \<Rightarrow> bool" where
  "barrier_ok s =
     (arrived s = length (filter left_loop (worker_pcs s)) + stop_arrived (stopper s)
      \<and> (stopper s = PastStopBarrier \<or> stopper s = SocketClosed \<longrightarrow>
            arrived s = Suc (length (worker_pcs s)))
      \<and> (sockfd_open s = (stopper s \<noteq> SocketClosed)))"

definition udp_inv :: "udp_server \<Rightarrow> bool" where
  "udp_inv s = (flag_ok s \<and> wake_ok s \<and> parse_ok s \<and> barrier_ok s)"

text \<open>
  A sample run with two workers: a client's datagram is received and parsed by worker 0;
  \<^verbatim>\<open>stop()\<close> stores the flag and sends the wake byte; worker 0 receives it, finds the flag
  set and leaves; worker 1 is woken by a late datagram and leaves too; \<^verbatim>\<open>stop()\<close> passes
  the barrier and closes the socket.
\<close>

definition sample_schedule :: "action list" where
  "sample_schedule =
     [ClientSend ''+cpu 1'', Recv 0 1, TestStop 0, ParseBatch 0 1,
      StopStore, StopSend, Recv 0 1, ClientSend ''+late 2'', TestStop 0,
      Recv 1 1, TestStop 1, StopArrive, StopLeave, WorkerLeave 0, StopClose]"

section \<open>The size parser on the documented inputs\<close>

lemmas memsize_simps =
  get_memory_size_def lexical_cast_u64_def digits_value_def is_digit_def
  throw_decode_error_def Let_def

text \<open>
  C7. \<^verbatim>\<open>get_memory_size\<close> maps "4GB" to \<open>4 * 2^30\<close>, "256MB" to \<open>256 * 2^20\<close>, "1024" to
  \<open>1024\<close> and "4gb" to \<open>4 * 2^30\<close>; the suffix is read without regard to case (also "4Gb",
  "4gB", "256mb", "256Mb", "256mB"); "4XB" and "GB" end in the decode error, thrown as
  \<^verbatim>\<open>std::runtime_error\<close> with the text \<^verbatim>\<open>can't decode volume size: `...`\<close>.
\<close>

theorem get_memory_size_documented_inputs:
  "get_memory_size ''4GB'' = Ok (4 * 2 ^ 30)
   \<and> get_memory_size ''256MB'' = Ok (256 * 2 ^ 20)
   \<and> get_memory_size ''1024'' = Ok 1024
   \<and> get_memory_size ''4gb'' = Ok (4 * 2 ^ 30)
   \<and> get_memory_size ''4Gb'' = Ok (4 * 2 ^ 30)
   \<and> get_memory_size ''4gB'' = Ok (4 * 2 ^ 30)
   \<and> get_memory_size ''256mb'' = Ok (256 * 2 ^ 20)
   \<and> get_memory_size ''256Mb'' = Ok (256 * 2 ^ 20)
   \<and> get_memory_size ''256mB'' = Ok (256 * 2 ^ 20)
   \<and> get_memory_size ''4XB'' = Throw (RuntimeError ''can't decode volume size: `4XB`'')
   \<and> get_memory_size ''GB'' = Throw (RuntimeError ''can't decode volume size: `GB`'')"
  by (simp add: memsize_simps)

text \<open>
  C9. The claim that \<^verbatim>\<open>get_memory_size\<close> calls \<^verbatim>\<open>back()\<close> and \<^verbatim>\<open>pop_back()\<close> on non-empty
  strings only does not hold of the code: on the empty string the first \<^verbatim>\<open>tmp.back()\<close>
  (line 216) reads an empty string, and on "B" the second one (line 220) does, after
  \<^verbatim>\<open>pop_back()\<close> has removed the only character. The daemon reaches the first case from a
  configuration file with the line \<^verbatim>\<open>volume_size=\<close>.
\<close>

theorem get_memory_size_empty_string_undefined:
  "get_memory_size '''' = Undefined_Behaviour ''std::string::back() on an empty string''
   \<and> get_memory_size ''B'' = Undefined_Behaviour ''std::string::back() on an empty string''
   \<and> read_ini ''volume_size='' = Ok (PTree [] [(''volume_size'', PTree [] [])])
   \<and> get_volume_size (PTree [] [(''volume_size'', PTree [] [])])
       = Undefined_Behaviour ''std::string::back() on an empty string''"
  by (simp add: memsize_simps get_volume_size_def get_string_default_def
        get_child_optional_def find_child_def read_ini_def ini_line_def trim_def is_space_def
        index_of_def drop_empty_section_def)

lemma main_run_server:
  "no_command vm \<Longrightarrow>
   main e vm = (case cmd_run_server e (opt_config vm) of
                  Ok evs \<Rightarrow> Exited EXIT_SUCCESS evs (files e)
                | Throw ex \<Rightarrow> Exited EXIT_FAILURE [StderrFailure ex] (files e)
                | Undefined_Behaviour w \<Rightarrow> Crashed w)"
  by (cases "get_config_path e (opt_config vm)";
      cases "cmd_run_server e (opt_config vm)")
     (simp_all add: main_def main_body_def no_command_def cmd_run_server_def)

lemma read_http_only_config:
  "read_ini http_only_config =
     Ok (PTree [] [(''path'', PTree ''/db'' []), (''HTTP'', PTree [] [(''port'', PTree ''8181'' [])])])"
  by (simp add: read_ini_def http_only_config_def unlines_def ini_line_def trim_def
        is_space_def index_of_def drop_empty_section_def Let_def)

lemmas getter_simps =
  get_child_optional_def find_child_def count_child_def get_string_def get_string_default_def
  get_optional_string_def get_int_def get_int_default_def get_ushort_def stream_int_def
  stream_ushort_def signed_digits_def trim_def is_space_def is_digit_def digits_value_def

lemmas config_simps =
  get_config_path_def path_append_def read_config_file_def get_path_def expand_path_def
  get_server_settings_def get_http_server_def get_tcp_server_def get_udp_server_def
  section_endpoint_def get_wal_settings_def exists_path_def

text \<open>
  C5, as the code has it. In server mode, when the configuration loads and the manifest
  \<^verbatim>\<open>db.akumuli\<close> is absent from the data path, the daemon opens no connection and starts no
  server, prints the line \<^verbatim>\<open>**ERROR** database file doesn't exists at <path>\<close> on standard
  output, and the process ends with \<^verbatim>\<open>EXIT_SUCCESS\<close>, the exit code 0.
\<close>

theorem run_server_without_manifest_exits_zero:
  assumes "no_command vm"
    and "get_config_path e (opt_config vm) = Ok config_path"
    and "read_config_file e config_path = Ok config"
    and "get_path e config = Ok p"
    and "get_server_settings config = Ok ingestion_servers"
    and "get_wal_settings e config = Ok wal_config"
    and "\<not> exists_path (files e) (path_append p ''db.akumuli'')"
  shows "main e vm =
           Exited 0 [Stdout (''**ERROR** database file doesn't exists at '' @ quoted p)] (files e)"
  using assms by (simp add: main_run_server cmd_run_server_def EXIT_SUCCESS_def)

theorem run_server_without_manifest_exits_zero_witness:
  "no_command run_cmdline
   \<and> get_config_path (sample_env no_manifest_files) (opt_config run_cmdline)
       = Ok ''/home/u/.akumulid''
   \<and> \<not> exists_path (files (sample_env no_manifest_files)) (path_append ''/db'' ''db.akumuli'')
   \<and> main (sample_env no_manifest_files) run_cmdline =
       Exited 0 [Stdout (''**ERROR** database file doesn't exists at '' @ quoted ''/db'')]
         no_manifest_files"
proof -
  let ?e = "sample_env no_manifest_files"
  let ?conf = "PTree [] [(''path'', PTree ''/db'' []),
                         (''HTTP'', PTree [] [(''port'', PTree ''8181'' [])])]"
  have h1: "no_command run_cmdline"
    by (simp add: no_command_def run_cmdline_def)
  have h2: "get_config_path ?e (opt_config run_cmdline) = Ok ''/home/u/.akumulid''"
    by (simp add: get_config_path_def path_append_def run_cmdline_def sample_env_def)
  have h3: "read_config_file ?e ''/home/u/.akumulid'' = Ok ?conf"
    by (simp add: read_config_file_def sample_env_def no_manifest_files_def
          read_http_only_config)
  have h4: "get_path ?e ?conf = Ok ''/db''"
    by (simp add: get_path_def expand_path_def sample_env_def getter_simps)
  have h5: "get_server_settings ?conf =
              Ok [\<lparr>name = ''HTTP'',
                   protocols = [(''HTTP'', \<lparr>addr = AddrV4 0 0 0 0, port = 8181\<rparr>)],
                   nworkers = - 1\<rparr>]"
    by (simp add: get_server_settings_def get_http_server_def section_endpoint_def
          getter_simps)
  have h6: "get_wal_settings ?e ?conf = Ok \<lparr>wal_path = [], wal_nvolumes = 0, volume_size_bytes = 0\<rparr>"
    by (simp add: get_wal_settings_def find_child_def)
  have h7: "\<not> exists_path (files ?e) (path_append ''/db'' ''db.akumuli'')"
    by (simp add: exists_path_def path_append_def sample_env_def no_manifest_files_def)
  have "files ?e = no_manifest_files"
    by (simp add: sample_env_def)
  with run_server_without_manifest_exits_zero [OF h1 h2 h3 h4 h5 h6 h7] h1 h2 h7
  show ?thesis by simp
qed

text \<open>
  C5, as the claim states it, fails: with a configuration that loads and no manifest in the
  data path the exit code is 0, not a non-zero one.
\<close>

theorem run_server_without_manifest_counterexample:
  "no_command run_cmdline
   \<and> files (sample_env no_manifest_files) ''/db/db.akumuli'' = None
   \<and> main (sample_env no_manifest_files) run_cmdline =
       Exited 0 [Stdout (''**ERROR** database file doesn't exists at '' @ quoted ''/db'')]
         no_manifest_files"
  by (simp add: main_run_server cmd_run_server_def config_simps getter_simps
        read_http_only_config no_command_def run_cmdline_def sample_env_def
        no_manifest_files_def EXIT_SUCCESS_def)

lemma write_config_exists:
  "exists_path (files e) p \<Longrightarrow>
   write_config e p nv dw = Throw (RuntimeError ''configuration file already exists'')"
  by (simp add: write_config_def)

text \<open>
  C10. When a file is already at the target path, \<^verbatim>\<open>init_config\<close> and
  \<^verbatim>\<open>init_exp_config\<close> throw \<^verbatim>\<open>configuration file already exists\<close>. A run with
  \<^verbatim>\<open>--init\<close> or \<^verbatim>\<open>--init-expandable\<close> then leaves the file system as it was and does not
  print the success line; unless \<^verbatim>\<open>--help\<close> is given too (it is served first), the run
  ends with the failure line and \<^verbatim>\<open>EXIT_FAILURE\<close>, which is not 0.
\<close>

theorem init_refuses_existing_config:
  assumes "opt_init vm \<or> opt_init_expandable vm"
    and "get_config_path e (opt_config vm) = Ok p"
    and "exists_path (files e) p"
  shows "init_config e p dw = Throw (RuntimeError ''configuration file already exists'')
       \<and> init_exp_config e p dw = Throw (RuntimeError ''configuration file already exists'')
       \<and> (\<exists>code evs. main e vm = Exited code evs (files e)
              \<and> Stdout (created_line p) \<notin> set evs)
       \<and> (\<not> opt_help vm \<longrightarrow>
              main e vm = Exited EXIT_FAILURE
                [StderrFailure (RuntimeError ''configuration file already exists'')] (files e))
       \<and> EXIT_FAILURE \<noteq> 0"
proof -
  have a: "init_config e p dw = Throw (RuntimeError ''configuration file already exists'')"
    using assms(3) by (simp add: init_config_def write_config_exists)
  have b: "init_exp_config e p dw = Throw (RuntimeError ''configuration file already exists'')"
    using assms(3) by (simp add: init_exp_config_def write_config_exists)
  have c: "main_body e vm = Throw (RuntimeError ''configuration file already exists'')"
    using assms by (auto simp: main_body_def init_config_def init_exp_config_def
                      write_config_exists)
  have d: "\<not> opt_help vm \<Longrightarrow> main e vm = Exited EXIT_FAILURE
             [StderrFailure (RuntimeError ''configuration file already exists'')] (files e)"
    by (simp add: main_def c)
  have e: "\<exists>code evs. main e vm = Exited code evs (files e)
             \<and> Stdout (created_line p) \<notin> set evs"
    by (cases "opt_help vm") (simp_all add: main_def c)
  show ?thesis using a b d e by (simp add: EXIT_FAILURE_def)
qed

theorem init_refuses_existing_config_witness:
  "opt_init init_cmdline
   \<and> get_config_path (sample_env no_manifest_files) (opt_config init_cmdline)
       = Ok ''/home/u/.akumulid''
   \<and> exists_path (files (sample_env no_manifest_files)) ''/home/u/.akumulid''
   \<and> init_config (sample_env no_manifest_files) ''/home/u/.akumulid'' False
       = Throw (RuntimeError ''configuration file already exists'')
   \<and> main (sample_env no_manifest_files) init_cmdline
       = Exited 1 [StderrFailure (RuntimeError ''configuration file already exists'')]
           no_manifest_files"
proof -
  let ?e = "sample_env no_manifest_files"
  have h1: "opt_init init_cmdline \<or> opt_init_expandable init_cmdline"
    by (simp add: init_cmdline_def)
  have h2: "get_config_path ?e (opt_config init_cmdline) = Ok ''/home/u/.akumulid''"
    by (simp add: get_config_path_def path_append_def init_cmdline_def run_cmdline_def
          sample_env_def)
  have h3: "exists_path (files ?e) ''/home/u/.akumulid''"
    by (simp add: exists_path_def sample_env_def no_manifest_files_def)
  have h4: "\<not> opt_help init_cmdline"
    by (simp add: init_cmdline_def run_cmdline_def)
  have h5: "files ?e = no_manifest_files"
    by (simp add: sample_env_def)
  from init_refuses_existing_config [OF h1 h2 h3, of False] h2 h3 h4 h5
  show ?thesis by (simp add: init_cmdline_def EXIT_FAILURE_def)
qed













section \<open>The default configuration read back\<close>

lemma cons_res_Nil: "cons_res [] r = r"
  by (cases r) simp_all

lemma cons_res_cons_res: "cons_res s (cons_res t r) = cons_res (s @ t) r"
  by (cases r) simp_all

lemma boost_format_char:
  assumes "CHR ''%'' \<noteq> c"
  shows "boost_format (c # r) a = cons_res [c] (boost_format r a)"
proof (cases r)
  case Nil
  with assms show ?thesis by auto
next
  case (Cons d r')
  with assms show ?thesis by (cases r') auto
qed

lemma boost_format_percent:
  "boost_format (CHR ''%'' # CHR ''%'' # r) a = cons_res ''%'' (boost_format r a)"
  by (cases r) simp_all

lemma boost_format_arg:
  "boost_format (CHR ''%'' # CHR ''1'' # CHR ''%'' # r) a = cons_res a (boost_format r a)"
  by simp

lemma boost_format_plain:
  "CHR ''%'' \<notin> set s \<Longrightarrow> boost_format (s @ r) a = cons_res s (boost_format r a)"
  by (induction s) (simp_all add: cons_res_Nil boost_format_char cons_res_cons_res)

lemma unlines_Cons: "unlines (l # ls) = l @ CHR 0x0A # unlines ls"
  by (simp add: unlines_def)

lemma unlines_Nil: "unlines [] = []"
  by (simp add: unlines_def)

lemma boost_format_line:
  "CHR ''%'' \<notin> set l \<Longrightarrow>
   boost_format (unlines (l # ls)) a = cons_res (l @ [CHR 0x0A]) (boost_format (unlines ls) a)"
  using boost_format_plain [of "l @ [CHR 0x0A]" "unlines ls" a]
  by (simp add: unlines_Cons)

lemma boost_format_arg_line:
  "CHR ''%'' \<notin> set l \<Longrightarrow>
   boost_format (unlines ((l @ ''%1%'') # ls)) a
     = cons_res (l @ a @ [CHR 0x0A]) (boost_format (unlines ls) a)"
  using boost_format_plain [of l "''%1%'' @ CHR 0x0A # unlines ls" a]
  by (simp add: unlines_Cons boost_format_char boost_format_arg cons_res_cons_res
        del: boost_format.simps)

lemma boost_format_pattern_line:
  "boost_format
     (unlines (''log4j.appender.file.layout.ConversionPattern=%%d{yyyy-MM-dd HH:mm:ss,SSS} [%%t] %%c [%%p] %%m%%n'' # ls)) a
   = cons_res (''log4j.appender.file.layout.ConversionPattern=%d{yyyy-MM-dd HH:mm:ss,SSS} [%t] %c [%p] %m%n'' @ [CHR 0x0A])
       (boost_format (unlines ls) a)"
  by (simp add: unlines_Cons boost_format_char boost_format_percent cons_res_cons_res
        del: boost_format.simps)

lemma boost_format_DEFAULT_CONFIG:
  "boost_format DEFAULT_CONFIG a = Ok (unlines (formatted_config_lines a))"
  unfolding DEFAULT_CONFIG_def formatted_config_lines_def
  apply (simp add: boost_format_line boost_format_pattern_line unlines_Nil
           boost_format_arg_line [of "''nvolumes=''", simplified]
           del: boost_format.simps)
  apply (simp add: unlines_def)
  done
lemma split_on_line: "d \<notin> set l \<Longrightarrow> split_on d (l @ d # r) = l # split_on d r"
  by (induction l) (auto split: list.splits)

lemma split_on_unlines:
  "list_all (\<lambda>l. CHR 0x0A \<notin> set l) ls \<Longrightarrow>
   split_on (CHR 0x0A) (unlines ls @ r) = ls @ split_on (CHR 0x0A) r"
  by (induction ls) (simp_all add: unlines_Nil unlines_Cons split_on_line)

lemma ini_lines_append:
  "ini_lines st n (xs @ ys) =
     bind_res (ini_lines st n xs) (\<lambda>st'. ini_lines st' (n + length xs) ys)"
  by (induction xs arbitrary: st n) (simp_all split: res.splits)

lemmas ini_simps =
  ini_line_def trim_def is_space_def index_of_def drop_empty_section_def Let_def

lemma ini_line_empty: "ini_line st n [] = Ok st"
  by (simp add: ini_line_def trim_def)

lemma ini_lines_default:
  "ini_lines \<lparr>local = [], in_section = False\<rparr> 1 (formatted_config_lines ''4'') =
     Ok \<lparr>local = default_sections, in_section = True\<rparr>"
  by (simp add: formatted_config_lines_def default_sections_def ini_simps)

lemma formatted_lines_no_newline:
  "list_all (\<lambda>l. CHR 0x0A \<notin> set l) (formatted_config_lines ''4'')"
  by (simp add: formatted_config_lines_def)

lemma length_formatted_lines: "length (formatted_config_lines a) = 57"
  by (simp add: formatted_config_lines_def)

lemma ini_lines_after_default:
  "ini_lines \<lparr>local = [], in_section = False\<rparr> 1 (formatted_config_lines ''4'' @ ls)
   = ini_lines \<lparr>local = default_sections, in_section = True\<rparr> 58 ls"
  by (simp only: ini_lines_append ini_lines_default bind_res.simps length_formatted_lines)
     simp

lemma wal_lines:
  "split_on (CHR 0x0A) ([CHR 0x0A] @ WAL_CONFIG @ [CHR 0x0A])
   = [[],
      ''# Write-Ahead-Log section (delete to disable)'',
      [],
      ''[WAL]'',
      ''# WAL location'',
      ''path=~/.akumuli'',
      [],
      ''# Max volume size. Log records are added until file size'',
      ''# will exced configured value.'',
      ''volume_size=256MB'',
      [],
      ''# Number of log volumes to keep on disk per CPU core. E.g. with `volume_size` = 256MB'',
      ''# and `nvolumes` = 4 and 4 CPUs WAL will use 4GB at most (4*4*256MB).'',
      ''nvolumes=4'',
      [], [], []]"
  by (simp add: WAL_CONFIG_def unlines_def)

lemma read_default_file_no_wal:
  "read_ini (unlines (formatted_config_lines ''4'') @ [CHR 0x0A]) = Ok (default_tree True)"
proof -
  have "split_on (CHR 0x0A) (unlines (formatted_config_lines ''4'') @ [CHR 0x0A])
        = formatted_config_lines ''4'' @ [[], []]"
    by (simp only: split_on_unlines [OF formatted_lines_no_newline]) simp
  moreover have "ini_lines \<lparr>local = default_sections, in_section = True\<rparr> 58 [[], []]
        = Ok \<lparr>local = default_sections, in_section = True\<rparr>"
    by (simp add: ini_line_empty)
  moreover have "drop_empty_section \<lparr>local = default_sections, in_section = True\<rparr>
        = children (default_tree True)"
    by (simp add: drop_empty_section_def default_sections_def default_tree_def)
  ultimately show ?thesis
    by (simp only: read_ini_def ini_lines_after_default res.case)
       (simp add: default_tree_def)
qed

lemma read_default_file_wal:
  "read_ini (unlines (formatted_config_lines ''4'') @ [CHR 0x0A] @ WAL_CONFIG @ [CHR 0x0A])
   = Ok (default_tree False)"
proof -
  have "split_on (CHR 0x0A)
          (unlines (formatted_config_lines ''4'') @ [CHR 0x0A] @ WAL_CONFIG @ [CHR 0x0A])
        = formatted_config_lines ''4''
          @ split_on (CHR 0x0A) ([CHR 0x0A] @ WAL_CONFIG @ [CHR 0x0A])"
    by (simp only: split_on_unlines [OF formatted_lines_no_newline])
  moreover have "ini_lines \<lparr>local = default_sections, in_section = True\<rparr> 58
          (split_on (CHR 0x0A) ([CHR 0x0A] @ WAL_CONFIG @ [CHR 0x0A]))
        = Ok \<lparr>local = children (default_tree False), in_section = True\<rparr>"
    unfolding wal_lines by (simp add: ini_simps default_tree_def default_sections_def)
  moreover have
    "drop_empty_section \<lparr>local = children (default_tree False), in_section = True\<rparr>
        = children (default_tree False)"
    by (simp add: drop_empty_section_def default_sections_def default_tree_def)
  ultimately show ?thesis
    by (simp only: read_ini_def ini_lines_after_default res.case)
       (simp add: default_tree_def)
qed

lemma read_default_file:
  "read_ini (unlines (formatted_config_lines ''4'') @ [CHR 0x0A]
             @ (if \<not> disable_wal then WAL_CONFIG @ [CHR 0x0A] else []))
   = Ok (default_tree disable_wal)"
proof (cases disable_wal)
  case True
  then show ?thesis
    using read_default_file_no_wal by (simp only: if_False if_True not_True_eq_False) simp
next
  case False
  then show ?thesis
    using read_default_file_wal by (simp only: if_False if_True not_False_eq_True)
qed

lemma read_config_file_written:
  "read_config_file (e\<lparr>files := (files e)(p \<mapsto> File t)\<rparr>) p = read_ini t"
  by (simp add: read_config_file_def)

lemma write_config_fresh:
  assumes "files e p = None" and "can_create e p"
    and "boost_format DEFAULT_CONFIG (show_int nv) = Ok c"
  shows "write_config e p nv dw =
           Ok ((files e)(p \<mapsto> File (c @ [CHR 0x0A]
                  @ (if \<not> dw then WAL_CONFIG @ [CHR 0x0A] else []))))"
  using assms by (simp add: write_config_def exists_path_def)

lemma show_int_4: "show_int 4 = ''4''"
  by (simp add: show_int_def show_nat.simps)

lemma default_tree_settings:
  "get_server_settings (default_tree disable_wal) =
     Ok [\<lparr>name = ''HTTP'',
          protocols = [(''HTTP'', \<lparr>addr = AddrV4 0 0 0 0, port = 8181\<rparr>)],
          nworkers = - 1\<rparr>,
         \<lparr>name = ''TCP'',
          protocols = [(''RESP'', \<lparr>addr = AddrV4 0 0 0 0, port = 8282\<rparr>),
                       (''OpenTSDB'', \<lparr>addr = AddrV4 0 0 0 0, port = 4242\<rparr>)],
          nworkers = 0\<rparr>,
         \<lparr>name = ''UDP'',
          protocols = [(''UDP'', \<lparr>addr = AddrV4 0 0 0 0, port = 8383\<rparr>)],
          nworkers = 1\<rparr>]"
  by (simp add: default_tree_def default_sections_def get_server_settings_def
        get_http_server_def get_tcp_server_def get_udp_server_def section_endpoint_def
        getter_simps)

lemma default_tree_volumes:
  "get_volume_size (default_tree disable_wal) = Ok (4 * 2 ^ 30)
   \<and> get_nvolumes (default_tree disable_wal) = Ok 4"
  by (simp add: default_tree_def default_sections_def get_volume_size_def get_nvolumes_def
        getter_simps memsize_simps)

text \<open>
  C8. Where no file is at the path and the file can be created, \<^verbatim>\<open>init_config\<close> writes
  the default configuration, \<^verbatim>\<open>read_config_file\<close> parses it back, and the settings read
  from the tree are the documented defaults: HTTP on port 8181; TCP with RESP on port 8282
  and OpenTSDB on port 4242; UDP on port 8383; a volume size of 4 GiB; 4 volumes.
\<close>

theorem default_config_roundtrip:
  assumes "files e p = None" and "can_create e p"
  shows "\<exists>f conf.
           init_config e p disable_wal = Ok f
           \<and> read_config_file (e\<lparr>files := f\<rparr>) p = Ok conf
           \<and> get_server_settings conf =
               Ok [\<lparr>name = ''HTTP'',
                    protocols = [(''HTTP'', \<lparr>addr = AddrV4 0 0 0 0, port = 8181\<rparr>)],
                    nworkers = - 1\<rparr>,
                   \<lparr>name = ''TCP'',
                    protocols = [(''RESP'', \<lparr>addr = AddrV4 0 0 0 0, port = 8282\<rparr>),
                                 (''OpenTSDB'', \<lparr>addr = AddrV4 0 0 0 0, port = 4242\<rparr>)],
                    nworkers = 0\<rparr>,
                   \<lparr>name = ''UDP'',
                    protocols = [(''UDP'', \<lparr>addr = AddrV4 0 0 0 0, port = 8383\<rparr>)],
                    nworkers = 1\<rparr>]
           \<and> get_volume_size conf = Ok (4 * 2 ^ 30)
           \<and> get_nvolumes conf = Ok 4"
proof -
  let ?text = "unlines (formatted_config_lines ''4'') @ [CHR 0x0A]
               @ (if \<not> disable_wal then WAL_CONFIG @ [CHR 0x0A] else [])"
  have fmt: "boost_format DEFAULT_CONFIG (show_int 4) = Ok (unlines (formatted_config_lines ''4''))"
    by (simp only: show_int_4 boost_format_DEFAULT_CONFIG)
  have wr: "init_config e p disable_wal = Ok ((files e)(p \<mapsto> File ?text))"
    unfolding init_config_def by (rule write_config_fresh [OF assms fmt])
  have rd: "read_config_file (e\<lparr>files := (files e)(p \<mapsto> File ?text)\<rparr>) p
            = Ok (default_tree disable_wal)"
    by (simp only: read_config_file_written read_default_file)
  show ?thesis
    using wr rd default_tree_settings [of disable_wal] default_tree_volumes [of disable_wal]
    by blast
qed

theorem default_config_roundtrip_witness:
  "files (sample_env Map.empty) ''/home/u/.akumulid'' = None
   \<and> can_create (sample_env Map.empty) ''/home/u/.akumulid''
   \<and> (\<exists>f conf.
         init_config (sample_env Map.empty) ''/home/u/.akumulid'' False = Ok f
         \<and> read_config_file ((sample_env Map.empty)\<lparr>files := f\<rparr>) ''/home/u/.akumulid''
             = Ok conf
         \<and> get_ushort conf ''HTTP.port'' = Ok 8181
         \<and> get_volume_size conf = Ok 4294967296
         \<and> get_nvolumes conf = Ok 4)"
proof -
  have h1: "files (sample_env Map.empty) ''/home/u/.akumulid'' = None"
    by (simp add: sample_env_def)
  have h2: "can_create (sample_env Map.empty) ''/home/u/.akumulid''"
    by (simp add: sample_env_def)
  from default_config_roundtrip [OF h1 h2, of False]
  obtain f conf where
    a: "init_config (sample_env Map.empty) ''/home/u/.akumulid'' False = Ok f"
    and b: "read_config_file ((sample_env Map.empty)\<lparr>files := f\<rparr>) ''/home/u/.akumulid''
            = Ok conf"
    and c: "get_volume_size conf = Ok (4 * 2 ^ 30)"
    and d: "get_nvolumes conf = Ok 4"
    by blast
  have fmt: "boost_format DEFAULT_CONFIG (show_int 4) = Ok (unlines (formatted_config_lines ''4''))"
    by (simp only: show_int_4 boost_format_DEFAULT_CONFIG)
  have "init_config (sample_env Map.empty) ''/home/u/.akumulid'' False
        = Ok ((files (sample_env Map.empty))(''/home/u/.akumulid'' \<mapsto> File
            (unlines (formatted_config_lines ''4'') @ [CHR 0x0A]
             @ (if \<not> False then WAL_CONFIG @ [CHR 0x0A] else []))))"
    unfolding init_config_def by (rule write_config_fresh [OF h1 h2 fmt])
  with a have f: "f = (files (sample_env Map.empty))(''/home/u/.akumulid'' \<mapsto> File
            (unlines (formatted_config_lines ''4'') @ [CHR 0x0A]
             @ (if \<not> False then WAL_CONFIG @ [CHR 0x0A] else [])))"
    by (simp only: res.inject)
  have "read_config_file ((sample_env Map.empty)\<lparr>files := f\<rparr>) ''/home/u/.akumulid''
        = Ok (default_tree False)"
    unfolding f by (simp only: read_config_file_written read_default_file)
  with b have "conf = default_tree False"
    by simp
  then have "get_ushort conf ''HTTP.port'' = Ok 8181"
    by (simp add: default_tree_def default_sections_def getter_simps)
  with a b c d h1 h2 show ?thesis by auto
qed

section \<open>The pooler's state machine and its error report\<close>

lemma read_some_started:
  "read_some et p n = Inr (r, p') \<Longrightarrow> state_of p' = Started"
  by (auto simp: read_some_def throw_if_not_started_def state_of_def refill_def Let_def
           split: option.splits if_splits prod.splits)

lemma read_many_started:
  "state_of p = Started \<Longrightarrow> read_many et p ns = Inr (rs, p') \<Longrightarrow> state_of p' = Started"
proof (induction ns arbitrary: p rs)
  case Nil
  then show ?case by simp
next
  case (Cons n ns)
  then show ?case
    by (auto split: sum.splits prod.splits dest: read_some_started)
qed

text \<open>
  C3. A pooler in \<open>Created\<close> rejects \<^verbatim>\<open>read_some\<close> with \<open>NotStarted\<close>, and \<^verbatim>\<open>start\<close>
  takes it to \<open>Started\<close>; in \<open>Started\<close>, and after any number of \<^verbatim>\<open>read_some\<close> calls
  from there, \<^verbatim>\<open>append\<close> and a second \<^verbatim>\<open>start\<close> fail with \<open>AlreadyStarted\<close>.
\<close>

theorem pooler_state_machine:
  "(state_of p = Created \<longrightarrow>
      read_some et p n = Inl NotStarted
      \<and> (\<exists>p'. start fs p = Inr p' \<and> state_of p' = Started))
   \<and> (state_of p = Started \<longrightarrow>
        append_text p chunk = Inl AlreadyStarted \<and> start fs p = Inl AlreadyStarted)
   \<and> (state_of p = Started \<and> read_many et p ns = Inr (rs, q) \<longrightarrow>
        append_text q chunk = Inl AlreadyStarted \<and> start fs q = Inl AlreadyStarted)"
proof -
  have started: "append_text x chunk = Inl AlreadyStarted \<and> start fs x = Inl AlreadyStarted"
    if "state_of x = Started" for x :: "'a QueryResultsPooler"
    using that
    by (simp add: state_of_def append_text_def start_def throw_if_started_def
          split: if_splits)
  have created: "read_some et p n = Inl NotStarted
      \<and> (\<exists>p'. start fs p = Inr p' \<and> state_of p' = Started)"
    if "state_of p = Created"
    using that
    by (simp add: state_of_def read_some_def throw_if_not_started_def start_def throw_if_started_def
          split: if_splits)
  show ?thesis
    using started created read_many_started by blast
qed

theorem pooler_state_machine_witness:
  "state_of created_pooler = Created
   \<and> read_some sample_error_text created_pooler 64 = Inl NotStarted
   \<and> start line_formatters created_pooler = Inr started_pooler
   \<and> state_of started_pooler = Started
   \<and> append_text started_pooler ''select'' = Inl AlreadyStarted
   \<and> start line_formatters started_pooler = Inl AlreadyStarted
   \<and> read_many sample_error_text started_pooler [64] =
       Inr ([(''7\<newline>8\<newline>'', False)], errored_pooler)
   \<and> append_text errored_pooler ''select'' = Inl AlreadyStarted"
proof -
  have c: "state_of created_pooler = Created"
    by (simp add: state_of_def created_pooler_def new_pooler_def)
  have s: "state_of started_pooler = Started"
    by (simp add: state_of_def started_pooler_def)
  have st: "start line_formatters created_pooler = Inr started_pooler"
    by (simp add: start_def throw_if_started_def created_pooler_def new_pooler_def
          started_pooler_def)
  have rd: "read_many sample_error_text started_pooler [64] =
              Inr ([(''7\<newline>8\<newline>'', False)], errored_pooler)"
    by (simp add: read_some_def throw_if_not_started_def started_pooler_def created_pooler_def new_pooler_def
          errored_pooler_def failing_session_def drained_def refill_def cursor_read_def
          cursor_is_done_def line_formatters_def show_nat.simps exhausted_def get_error_def
          cursor_error_def AKU_SUCCESS_def Let_def)
  from pooler_state_machine [of created_pooler sample_error_text 64 line_formatters]
       pooler_state_machine [of started_pooler sample_error_text 64 line_formatters
                               "''select''" "[64]"
                               "[(''7\<newline>8\<newline>'', False)]" errored_pooler]
       c s st rd
  show ?thesis by simp
qed

lemma read_some_sets_error_produced:
  assumes "read_some et p n = Inr (r, p')"
    and "\<not> error_produced p" and "error_produced p'"
  shows "drained p' \<and> get_error p' \<noteq> AKU_SUCCESS \<and> cursor p' \<noteq> None
         \<and> r = (take n (et (get_error p')), False)"
  using assms
  by (auto simp: read_some_def throw_if_not_started_def refill_def drained_def get_error_def Let_def
           split: option.splits if_splits prod.splits)

lemma read_some_after_error:
  assumes "error_produced p" and "drained p" and "get_error p \<noteq> AKU_SUCCESS"
  shows "read_some et p n = Inr (([], True), p)"
  using assms
  by (auto simp: read_some_def throw_if_not_started_def get_error_def cursor_error_def cursor_is_done_def
        exhausted_def Let_def split: option.splits if_splits)

lemma read_many_after_error:
  assumes "error_produced p" and "drained p" and "get_error p \<noteq> AKU_SUCCESS"
  shows "read_many et p ns = Inr (replicate (length ns) ([], True), p)"
  using assms by (induction ns) (simp_all add: read_some_after_error)

text \<open>
  C4. Let a \<^verbatim>\<open>read_some\<close> call set \<^verbatim>\<open>error_produced_\<close>. That call delivered the error: the
  cursor had surfaced a non-success status, and the call wrote its text with
  \<open>complete = false\<close>. Every later \<^verbatim>\<open>read_some\<close>, whatever the buffer sizes, writes
  nothing and reports \<open>complete = true\<close>; the pooler does not change any more, so
  \<^verbatim>\<open>get_error\<close> returns the same non-success status after each of them.
\<close>

theorem error_reported_once:
  assumes "read_some et p n = Inr (r, p')"
    and "\<not> error_produced p" and "error_produced p'"
  shows "get_error p' \<noteq> AKU_SUCCESS
         \<and> r = (take n (et (get_error p')), False)
         \<and> (\<forall>ns. \<exists>q. read_many et p' ns = Inr (replicate (length ns) ([], True), q)
                     \<and> get_error q = get_error p' \<and> q = p')"
  using read_some_sets_error_produced [OF assms] read_many_after_error [of p' et] assms(3)
  by simp

theorem error_reported_once_witness:
  "read_some sample_error_text errored_pooler 64
     = Inr ((''-error 5'', False), errored_pooler\<lparr>error_produced := True\<rparr>)
   \<and> \<not> error_produced errored_pooler
   \<and> get_error (errored_pooler\<lparr>error_produced := True\<rparr>) = 5
   \<and> read_many sample_error_text (errored_pooler\<lparr>error_produced := True\<rparr>) [64, 0, 8]
       = Inr ([([], True), ([], True), ([], True)], errored_pooler\<lparr>error_produced := True\<rparr>)"
proof -
  let ?p' = "errored_pooler\<lparr>error_produced := True\<rparr>"
  have h1: "read_some sample_error_text errored_pooler 64 = Inr ((''-error 5'', False), ?p')"
    by (simp add: read_some_def throw_if_not_started_def errored_pooler_def started_pooler_def created_pooler_def
          new_pooler_def drained_def cursor_is_done_def get_error_def cursor_error_def
          AKU_SUCCESS_def sample_error_text_def show_nat.simps Let_def)
  have h2: "\<not> error_produced errored_pooler"
    by (simp add: errored_pooler_def started_pooler_def created_pooler_def new_pooler_def)
  have h3: "error_produced ?p'"
    by simp
  have g: "get_error ?p' = 5"
    by (simp add: get_error_def cursor_error_def errored_pooler_def)
  from error_reported_once [OF h1 h2 h3]
  have "\<exists>q. read_many sample_error_text ?p' [64, 0, 8]
               = Inr (replicate (length [64, 0, 8 :: nat]) ([], True), q) \<and> q = ?p'"
    by blast
  then have "read_many sample_error_text ?p' [64, 0, 8]
               = Inr ([([], True), ([], True), ([], True)], ?p')"
    by (simp add: numeral_3_eq_3)
  with h1 h2 g show ?thesis by simp
qed

section \<open>A parse error ends the batch\<close>

lemma parse_loop_append:
  "parse_loop ops ps w pre = LoopDone ps' w' \<Longrightarrow>
   parse_loop ops ps w (pre @ ms) = parse_loop ops ps' w' ms"
proof (induction pre arbitrary: ps w)
  case Nil
  then show ?case by simp
next
  case (Cons m pre)
  then show ?case
    by (auto simp: Let_def split: parsed.splits parse_exn.splits)
qed

lemma parse_loop_done:
  "parse_loop ops ps w pre = LoopDone ps' w' \<Longrightarrow>
   errors w' = errors w \<and> map snd (calls w') = map snd (calls w) @ pre"
proof (induction pre arbitrary: ps w)
  case Nil
  then show ?case by simp
next
  case (Cons m pre)
  show ?case
  proof (cases "parse_next ops ps (spout w) m")
    case (Parsed ps1 db1)
    with Cons.prems
    have "parse_loop ops ps1
            (w\<lparr>iobuf := (iobuf w)\<lparr>bps := bps (iobuf w) + length m\<rparr>,
               calls := calls w @ [(ps, m)], spout := db1\<rparr>) pre = LoopDone ps' w'"
      by (simp add: Let_def)
    from Cons.IH [OF this] show ?thesis by simp
  next
    case (Raised ex ps1 db1)
    with Cons.prems show ?thesis
      by (cases ex) (simp_all add: Let_def)
  qed
qed

lemma parse_loop_first_call:
  "\<exists>tail. calls (loop_worker (parse_loop ops ps w (m # ms))) = calls w @ (ps, m) # tail"
proof -
  have grow: "\<exists>tail. calls (loop_worker (parse_loop ops qs v ns)) = calls v @ tail"
    for qs and v :: "('a, 'b) worker" and ns
  proof (induction ns arbitrary: qs v)
    case Nil
    then show ?case by (simp add: loop_worker_def)
  next
    case (Cons n ns)
    show ?case
    proof (cases "parse_next ops qs (spout v) n")
      case (Parsed qs1 db1)
      from Cons.IH [of qs1 "v\<lparr>iobuf := (iobuf v)\<lparr>bps := bps (iobuf v) + length n\<rparr>,
                               calls := calls v @ [(qs, n)], spout := db1\<rparr>"]
      show ?thesis using Parsed by (auto simp: Let_def)
    next
      case (Raised ex qs1 db1)
      then show ?thesis
        by (cases ex) (simp_all add: Let_def loop_worker_def)
    qed
  qed
  show ?thesis
  proof (cases "parse_next ops ps (spout w) m")
    case (Parsed ps1 db1)
    from grow [of ps1 "w\<lparr>iobuf := (iobuf w)\<lparr>bps := bps (iobuf w) + length m\<rparr>,
                         calls := calls w @ [(ps, m)], spout := db1\<rparr>" ms]
    show ?thesis using Parsed by (auto simp: Let_def)
  next
    case (Raised ex ps1 db1)
    then show ?thesis
      by (cases ex) (simp_all add: Let_def loop_worker_def)
  qed
qed

lemma worker_batch_first_call:
  "\<exists>tail. calls (turn_worker (worker_batch ops w (m # ms)))
            = calls w @ (new_parser ops, m) # tail"
proof -
  let ?w1 = "w\<lparr>iobuf := (iobuf w)\<lparr>pps := pps (iobuf w) + 1\<rparr>\<rparr>"
  from parse_loop_first_call [of ops "new_parser ops" ?w1 m ms]
  obtain tail where
    t: "calls (loop_worker (parse_loop ops (new_parser ops) ?w1 (m # ms)))
        = calls w @ (new_parser ops, m) # tail"
    by auto
  show ?thesis
  proof (cases "parse_loop ops (new_parser ops) ?w1 (m # ms)")
    case (LoopDone ps w')
    with t show ?thesis
      by (simp add: worker_batch_def turn_worker_def after_loop_def loop_worker_def)
  next
    case (LoopBreak ps w')
    with t show ?thesis
      by (simp add: worker_batch_def turn_worker_def after_loop_def loop_worker_def)
  next
    case (LoopThrown what w')
    with t show ?thesis
      by (simp add: worker_batch_def turn_worker_def loop_worker_def)
  qed
qed

text \<open>
  C2, as the code has it. Let the datagrams \<open>pre\<close> of a batch parse without an exception
  and let \<^verbatim>\<open>parse_next\<close> throw \<^verbatim>\<open>StreamError\<close> or \<^verbatim>\<open>DatabaseError\<close> on the next
  datagram \<open>bad\<close>. Then the error is caught and logged and the worker goes on; of this
  batch, the parser was handed \<open>pre\<close> and \<open>bad\<close> and nothing else: the datagrams after
  \<open>bad\<close> are dropped, valid or not; and the first datagram of the batch received next is
  handed to a newly constructed parser.
\<close>

theorem parse_error_aborts_batch:
  assumes "parse_loop ops (new_parser ops)
             (w\<lparr>iobuf := (iobuf w)\<lparr>pps := pps (iobuf w) + 1\<rparr>\<rparr>) pre = LoopDone ps wp"
    and "parse_next ops ps (spout wp) bad = Raised ex ps' db'"
    and "ex = StreamError what \<or> ex = DatabaseError what"
  shows "\<exists>w'. worker_batch ops w (pre @ bad # rest) = Continue w'
              \<and> errors w' = errors w @ [what]
              \<and> map snd (calls w') = map snd (calls w) @ pre @ [bad]
              \<and> (\<forall>m ms. \<exists>tail.
                    calls (turn_worker (worker_batches ops w [pre @ bad # rest, m # ms]))
                      = calls w' @ (new_parser ops, m) # tail)"
proof -
  let ?w1 = "w\<lparr>iobuf := (iobuf w)\<lparr>pps := pps (iobuf w) + 1\<rparr>\<rparr>"
  let ?wb = "wp\<lparr>iobuf := (iobuf wp)\<lparr>bps := bps (iobuf wp) + length bad\<rparr>,
                calls := calls wp @ [(ps, bad)]\<rparr>
               \<lparr>spout := db', errors := errors wp @ [what]\<rparr>"
  have pre: "errors wp = errors w" "map snd (calls wp) = map snd (calls w) @ pre"
    using parse_loop_done [OF assms(1)] by simp_all
  have "parse_loop ops ps wp (bad # rest) = LoopBreak ps' ?wb"
    using assms(2,3) by (auto simp: Let_def)
  then have "parse_loop ops (new_parser ops) ?w1 (pre @ bad # rest) = LoopBreak ps' ?wb"
    using parse_loop_append [OF assms(1)] by simp
  then have "worker_batch ops w (pre @ bad # rest)
             = Continue (after_loop ops (pre @ bad # rest) ps' ?wb)"
    by (simp add: worker_batch_def)
  moreover have "errors (after_loop ops (pre @ bad # rest) ps' ?wb) = errors w @ [what]"
    by (simp add: after_loop_def pre)
  moreover have "map snd (calls (after_loop ops (pre @ bad # rest) ps' ?wb))
                 = map snd (calls w) @ pre @ [bad]"
    by (simp add: after_loop_def pre)
  moreover have "turn_worker (worker_batches ops w [pre @ bad # rest, next_batch])
                 = turn_worker (worker_batch ops (after_loop ops (pre @ bad # rest) ps' ?wb)
                                  next_batch)"
    if "worker_batch ops w (pre @ bad # rest)
          = Continue (after_loop ops (pre @ bad # rest) ps' ?wb)" for next_batch
    using that by (simp add: turn_worker_def split: turn.splits)
  ultimately show ?thesis
    using worker_batch_first_call by metis
qed

theorem parse_error_aborts_batch_witness:
  "parse_next line_parser 1 [''+cpu 1''] ''garbage''
     = Raised (StreamError ''unexpected parameter id format'') 1 [''+cpu 1'']
   \<and> (\<exists>w'. worker_batch line_parser idle_worker [''+cpu 1'', ''garbage'', ''+mem 2'']
              = Continue w'
            \<and> errors w' = [''unexpected parameter id format'']
            \<and> map snd (calls w') = [''+cpu 1'', ''garbage'']
            \<and> (\<exists>tail. calls (turn_worker (worker_batches line_parser idle_worker
                                             [[''+cpu 1'', ''garbage'', ''+mem 2''],
                                              [''+disk 3'']]))
                         = calls w' @ (0, ''+disk 3'') # tail))"
proof -
  let ?w1 = "idle_worker\<lparr>iobuf := (iobuf idle_worker)\<lparr>pps := pps (iobuf idle_worker) + 1\<rparr>\<rparr>"
  let ?wp = "\<lparr>spout = [''+cpu 1''], iobuf = \<lparr>pps = 1, bps = 6\<rparr>, errors = [],
              calls = [(0, ''+cpu 1'')]\<rparr> :: (nat, string list) worker"
  have h1: "parse_loop line_parser (new_parser line_parser) ?w1 [''+cpu 1''] = LoopDone 1 ?wp"
    by (simp add: line_parser_def idle_worker_def new_IOBuf_def)
  have h2: "parse_next line_parser 1 (spout ?wp) ''garbage''
            = Raised (StreamError ''unexpected parameter id format'') 1 [''+cpu 1'']"
    by (simp add: line_parser_def)
  have h3: "StreamError ''unexpected parameter id format''
              = StreamError ''unexpected parameter id format''
            \<or> StreamError ''unexpected parameter id format''
              = DatabaseError ''unexpected parameter id format''"
    by simp
  from parse_error_aborts_batch [OF h1 h2 h3, of "[''+mem 2'']"]
  obtain w' where
    w': "worker_batch line_parser idle_worker ([''+cpu 1''] @ ''garbage'' # [''+mem 2''])
           = Continue w'"
        "errors w' = errors idle_worker @ [''unexpected parameter id format'']"
        "map snd (calls w') = map snd (calls idle_worker) @ [''+cpu 1''] @ [''garbage'']"
        "\<forall>m ms. \<exists>tail.
           calls (turn_worker (worker_batches line_parser idle_worker
                    [[''+cpu 1''] @ ''garbage'' # [''+mem 2''], m # ms]))
             = calls w' @ (new_parser line_parser, m) # tail"
    by blast
  from w'(4) obtain tail where
    "calls (turn_worker (worker_batches line_parser idle_worker
              [[''+cpu 1''] @ ''garbage'' # [''+mem 2''], ''+disk 3'' # []]))
       = calls w' @ (new_parser line_parser, ''+disk 3'') # tail"
    by blast
  then have "calls (turn_worker (worker_batches line_parser idle_worker
                      [[''+cpu 1'', ''garbage'', ''+mem 2''], [''+disk 3'']]))
       = calls w' @ (0, ''+disk 3'') # tail"
    by (simp add: line_parser_def)
  with w'(1-3) h2 show ?thesis
    by (auto simp: idle_worker_def)
qed

text \<open>
  C2, as the claim states it, fails: in a batch of a malformed datagram followed by a
  valid one, the \<^verbatim>\<open>break\<close> after the logged error ends the loop, and the valid datagram
  is not ingested, though the same datagram alone in a batch is.
\<close>

theorem malformed_then_valid_counterexample:
  "worker_batch line_parser idle_worker [''garbage'', ''+series1 tag=a'']
     = Continue \<lparr>spout = [], iobuf = new_IOBuf,
                 errors = [''unexpected parameter id format''],
                 calls = [(0, ''garbage'')]\<rparr>
   \<and> worker_batch line_parser idle_worker [''+series1 tag=a'']
     = Continue \<lparr>spout = [''+series1 tag=a''], iobuf = new_IOBuf, errors = [],
                 calls = [(0, ''+series1 tag=a'')]\<rparr>"
  by (simp add: worker_batch_def after_loop_def line_parser_def idle_worker_def new_IOBuf_def)

section \<open>The stop protocol is safe\<close>

lemma filter_update_count:
  "i < length xs \<Longrightarrow>
   length (filter P (xs[i := y])) + (if P (xs ! i) then 1 else 0)
     = length (filter P xs) + (if P y then 1 else 0)"
proof (induction xs arbitrary: i)
  case Nil
  then show ?case by simp
next
  case (Cons x xs)
  then show ?case by (cases i) auto
qed

lemma list_all_update:
  "list_all P xs \<Longrightarrow> P y \<Longrightarrow> list_all P (xs[i := y])"
  using set_update_subset_insert [of xs i y] by (auto simp: list_all_iff)

lemma list_ex_update:
  "\<not> list_ex Q xs \<Longrightarrow> \<not> Q y \<Longrightarrow> \<not> list_ex Q (xs[i := y])"
  using set_update_subset_insert [of xs i y] by (auto simp: list_ex_iff)

lemma all_left_loop:
  assumes "length (filter left_loop pcs) = length pcs"
  shows "list_all left_loop pcs"
proof -
  have "length (filter (\<lambda>x. \<not> left_loop x) pcs) = 0"
    using sum_length_filter_compl [of left_loop pcs] assms by simp
  then show ?thesis
    by (simp add: list_all_iff filter_empty_conv)
qed

lemma wake_ok_worker:
  assumes "wake_ok s" and "stopper s' = stopper s"
    and "set (queue s') \<subseteq> set (queue s)"
    and "worker_pcs s' = (worker_pcs s)[i := y]"
    and "\<not> wake_in_flight s \<Longrightarrow> Wake \<notin> set (batch_of y)"
  shows "wake_ok s'"
proof -
  have "\<not> wake_in_flight s'" if "\<not> wake_in_flight s"
  proof -
    from that have q: "Wake \<notin> set (queue s)"
      and w: "\<not> list_ex (\<lambda>pc. Wake \<in> set (batch_of pc)) (worker_pcs s)"
      by (simp_all add: wake_in_flight_def)
    from q assms(3) have "Wake \<notin> set (queue s')" by blast
    moreover have "\<not> list_ex (\<lambda>pc. Wake \<in> set (batch_of pc)) (worker_pcs s')"
      unfolding assms(4) using w assms(5) [OF that] by (rule list_ex_update)
    ultimately show ?thesis by (simp add: wake_in_flight_def)
  qed
  with assms(1,2) show ?thesis by (simp add: wake_ok_def)
qed

lemma parse_ok_worker:
  assumes "parse_ok s"
    and "worker_pcs s' = (worker_pcs s)[i := y]"
    and "is_parsing y \<longrightarrow> Wake \<notin> set (batch_of y)"
    and "set (parsed s') \<subseteq> set (parsed s) \<union> set extra" and "Wake \<notin> set extra"
  shows "parse_ok s'"
proof -
  from assms(1,4,5) have "Wake \<notin> set (parsed s')"
    by (auto simp: parse_ok_def)
  moreover have "list_all (\<lambda>pc. is_parsing pc \<longrightarrow> Wake \<notin> set (batch_of pc)) (worker_pcs s')"
    unfolding assms(2) using assms(1,3) by (intro list_all_update) (simp_all add: parse_ok_def)
  ultimately show ?thesis by (simp add: parse_ok_def)
qed

lemma barrier_ok_same:
  assumes "barrier_ok s" and "i < length (worker_pcs s)"
    and "worker_pcs s' = (worker_pcs s)[i := y]"
    and "left_loop y = left_loop (worker_pcs s ! i)"
    and "arrived s' = arrived s" and "stopper s' = stopper s"
    and "sockfd_open s' = sockfd_open s"
  shows "barrier_ok s'"
proof -
  have "length (filter left_loop (worker_pcs s')) = length (filter left_loop (worker_pcs s))"
    unfolding assms(3)
    using filter_update_count [OF assms(2), of left_loop y] assms(4) by simp
  with assms show ?thesis by (auto simp: barrier_ok_def)
qed

lemma barrier_ok_arrive:
  assumes "barrier_ok s" and "i < length (worker_pcs s)"
    and "worker_pcs s' = (worker_pcs s)[i := y]"
    and "left_loop y" and "\<not> left_loop (worker_pcs s ! i)"
    and "arrived s' = Suc (arrived s)" and "stopper s' = stopper s"
    and "sockfd_open s' = sockfd_open s"
  shows "barrier_ok s'"
proof -
  have cnt: "length (filter left_loop (worker_pcs s'))
             = Suc (length (filter left_loop (worker_pcs s)))"
    unfolding assms(3)
    using filter_update_count [OF assms(2), of left_loop y] assms(4,5) by simp
  have "length (filter left_loop (worker_pcs s')) \<le> length (worker_pcs s)"
    unfolding assms(3) using length_filter_le [of left_loop "(worker_pcs s)[i := y]"] by simp
  with cnt have "length (filter left_loop (worker_pcs s)) < length (worker_pcs s)"
    by simp
  with assms(1) have "stopper s \<noteq> PastStopBarrier \<and> stopper s \<noteq> SocketClosed"
    by (auto simp: barrier_ok_def stop_arrived_def)
  with assms cnt show ?thesis by (auto simp: barrier_ok_def)
qed

lemma received_no_wake:
  assumes "\<not> wake_in_flight s" and "i < length (worker_pcs s)"
    and "worker_pcs s ! i = Received batch"
  shows "Wake \<notin> set batch"
proof -
  have "Received batch \<in> set (worker_pcs s)"
    using assms(2,3) by (metis nth_mem)
  with assms(1) show ?thesis
    by (auto simp: wake_in_flight_def list_ex_iff batch_of_def)
qed

lemma parsing_no_wake:
  assumes "parse_ok s" and "i < length (worker_pcs s)"
    and "worker_pcs s ! i = Parsing batch"
  shows "Wake \<notin> set batch"
proof -
  have "Parsing batch \<in> set (worker_pcs s)"
    using assms(2,3) by (metis nth_mem)
  with assms(1) show ?thesis
    by (auto simp: parse_ok_def list_all_iff is_parsing_def batch_of_def)
qed

lemma udp_step_inv:
  assumes "udp_inv s" and "udp_step np s a = Some s'"
  shows "udp_inv s'"
proof -
  from assms(1) have f: "flag_ok s" and w: "wake_ok s" and p: "parse_ok s"
    and b: "barrier_ok s"
    by (simp_all add: udp_inv_def)
  show ?thesis
  proof (cases a)
    case (ClientSend payload)
    with assms(2) have s': "s' = s\<lparr>queue := queue s @ [Data payload]\<rparr>"
      by simp
    have "flag_ok s'" using f by (simp add: flag_ok_def s')
    moreover have "wake_ok s'" using w by (simp add: wake_ok_def wake_in_flight_def s')
    moreover have "parse_ok s'" using p by (simp add: parse_ok_def s')
    moreover have "barrier_ok s'" using b by (auto simp: barrier_ok_def s')
    ultimately show ?thesis by (simp add: udp_inv_def)
  next
    case (Lose k)
    with assms(2) have s': "s' = s\<lparr>queue := take k (queue s) @ drop (Suc k) (queue s)\<rparr>"
      by (simp split: if_splits)
    have "flag_ok s'" using f by (simp add: flag_ok_def s')
    moreover have "wake_ok s'"
      using w by (auto simp: wake_ok_def wake_in_flight_def s' dest: in_set_takeD in_set_dropD)
    moreover have "parse_ok s'" using p by (simp add: parse_ok_def s')
    moreover have "barrier_ok s'" using b by (auto simp: barrier_ok_def s')
    ultimately show ?thesis by (simp add: udp_inv_def)
  next
    case (Recv i k)
    with assms(2) have g: "i < length (worker_pcs s)" "worker_pcs s ! i = Receiving"
      and s': "s' = s\<lparr>queue := drop k (queue s),
                      worker_pcs := (worker_pcs s)[i := Received (take k (queue s))]\<rparr>"
      by (simp_all split: if_splits)
    have "flag_ok s'" using f by (simp add: flag_ok_def s')
    moreover have "wake_ok s'"
    proof (rule wake_ok_worker [OF w, of _ i "Received (take k (queue s))"])
      show "\<not> wake_in_flight s \<Longrightarrow> Wake \<notin> set (batch_of (Received (take k (queue s))))"
        by (auto simp: wake_in_flight_def batch_of_def dest: in_set_takeD)
    qed (simp_all add: s' set_drop_subset)
    moreover have "parse_ok s'"
      by (rule parse_ok_worker [OF p, of _ i "Received (take k (queue s))" "[]"])
         (simp_all add: s' is_parsing_def)
    moreover have "barrier_ok s'"
      by (rule barrier_ok_same [OF b g(1), of _ "Received (take k (queue s))"])
         (simp_all add: s' g(2) left_loop_def)
    ultimately show ?thesis by (simp add: udp_inv_def)
  next
    case (TestStop i)
    with assms(2) obtain batch where g: "i < length (worker_pcs s)"
        "worker_pcs s ! i = Received batch"
      by (auto split: if_splits worker_pc.splits)
    show ?thesis
    proof (cases "stop_flag s \<noteq> 0")
      case True
      with assms(2) TestStop g
      have s': "s' = s\<lparr>worker_pcs := (worker_pcs s)[i := AtStopBarrier],
                        arrived := Suc (arrived s)\<rparr>"
        by simp
      have "flag_ok s'" using f by (simp add: flag_ok_def s')
      moreover have "wake_ok s'"
        by (rule wake_ok_worker [OF w, of _ i AtStopBarrier]) (simp_all add: s' batch_of_def)
      moreover have "parse_ok s'"
        by (rule parse_ok_worker [OF p, of _ i AtStopBarrier "[]"])
           (simp_all add: s' is_parsing_def)
      moreover have "barrier_ok s'"
        by (rule barrier_ok_arrive [OF b g(1), of _ AtStopBarrier])
           (simp_all add: s' g(2) left_loop_def)
      ultimately show ?thesis by (simp add: udp_inv_def)
    next
      case False
      with assms(2) TestStop g
      have s': "s' = s\<lparr>worker_pcs := (worker_pcs s)[i := Parsing batch]\<rparr>"
        by simp
      from False f have "stopper s = NotCalled"
        by (auto simp: flag_ok_def)
      with w have nowake: "\<not> wake_in_flight s"
        by (simp add: wake_ok_def)
      have clean: "Wake \<notin> set batch"
        using received_no_wake [OF nowake g] .
      have "flag_ok s'" using f by (simp add: flag_ok_def s')
      moreover have "wake_ok s'"
        by (rule wake_ok_worker [OF w, of _ i "Parsing batch"])
           (simp_all add: s' batch_of_def clean)
      moreover have "parse_ok s'"
        by (rule parse_ok_worker [OF p, of _ i "Parsing batch" "[]"])
           (simp_all add: s' batch_of_def clean)
      moreover have "barrier_ok s'"
        by (rule barrier_ok_same [OF b g(1), of _ "Parsing batch"])
           (simp_all add: s' g(2) left_loop_def)
      ultimately show ?thesis by (simp add: udp_inv_def)
    qed
  next
    case (ParseBatch i k)
    with assms(2) obtain batch where g: "i < length (worker_pcs s)"
        "worker_pcs s ! i = Parsing batch"
      and s': "s' = s\<lparr>parsed := parsed s @ take k batch,
                      worker_pcs := (worker_pcs s)[i := Receiving]\<rparr>"
      by (auto split: if_splits worker_pc.splits)
    have clean: "Wake \<notin> set batch"
      using parsing_no_wake [OF p g] .
    have "flag_ok s'" using f by (simp add: flag_ok_def s')
    moreover have "wake_ok s'"
      by (rule wake_ok_worker [OF w, of _ i Receiving]) (simp_all add: s' batch_of_def)
    moreover have "parse_ok s'"
      by (rule parse_ok_worker [OF p, of _ i Receiving batch])
         (auto simp: s' is_parsing_def clean dest: in_set_takeD)
    moreover have "barrier_ok s'"
      by (rule barrier_ok_same [OF b g(1), of _ Receiving])
         (simp_all add: s' g(2) left_loop_def)
    ultimately show ?thesis by (simp add: udp_inv_def)
  next
    case (WorkerThrow i k)
    with assms(2) have g: "i < length (worker_pcs s)"
      by (simp split: if_splits)
    from assms(2) WorkerThrow g
    consider (recv) "worker_pcs s ! i = Receiving"
        "s' = s\<lparr>worker_pcs := (worker_pcs s)[i := AtStopBarrier], arrived := Suc (arrived s)\<rparr>"
      | (parse) batch where "worker_pcs s ! i = Parsing batch"
        "s' = s\<lparr>parsed := parsed s @ take k batch,
                 worker_pcs := (worker_pcs s)[i := AtStopBarrier],
                 arrived := Suc (arrived s)\<rparr>"
      by (auto split: if_splits worker_pc.splits)
    then show ?thesis
    proof cases
      case recv
      have "flag_ok s'" using f by (simp add: flag_ok_def recv(2))
      moreover have "wake_ok s'"
        by (rule wake_ok_worker [OF w, of _ i AtStopBarrier])
           (simp_all add: recv(2) batch_of_def)
      moreover have "parse_ok s'"
        by (rule parse_ok_worker [OF p, of _ i AtStopBarrier "[]"])
           (simp_all add: recv(2) is_parsing_def)
      moreover have "barrier_ok s'"
        by (rule barrier_ok_arrive [OF b g, of _ AtStopBarrier])
           (simp_all add: recv left_loop_def)
      ultimately show ?thesis by (simp add: udp_inv_def)
    next
      case parse
      have clean: "Wake \<notin> set batch"
        using parsing_no_wake [OF p g parse(1)] .
      have "flag_ok s'" using f by (simp add: flag_ok_def parse(2))
      moreover have "wake_ok s'"
        by (rule wake_ok_worker [OF w, of _ i AtStopBarrier])
           (simp_all add: parse(2) batch_of_def)
      moreover have "parse_ok s'"
        by (rule parse_ok_worker [OF p, of _ i AtStopBarrier batch])
           (auto simp: parse(2) is_parsing_def clean dest: in_set_takeD)
      moreover have "barrier_ok s'"
        by (rule barrier_ok_arrive [OF b g, of _ AtStopBarrier])
           (simp_all add: parse left_loop_def)
      ultimately show ?thesis by (simp add: udp_inv_def)
    qed
  next
    case (WorkerLeave i)
    with assms(2) have g: "i < length (worker_pcs s)" "worker_pcs s ! i = AtStopBarrier"
      and s': "s' = s\<lparr>worker_pcs := (worker_pcs s)[i := WorkerDone]\<rparr>"
      by (simp_all split: if_splits)
    have "flag_ok s'" using f by (simp add: flag_ok_def s')
    moreover have "wake_ok s'"
      by (rule wake_ok_worker [OF w, of _ i WorkerDone]) (simp_all add: s' batch_of_def)
    moreover have "parse_ok s'"
      by (rule parse_ok_worker [OF p, of _ i WorkerDone "[]"])
         (simp_all add: s' is_parsing_def)
    moreover have "barrier_ok s'"
      by (rule barrier_ok_same [OF b g(1), of _ WorkerDone])
         (simp_all add: s' g(2) left_loop_def)
    ultimately show ?thesis by (simp add: udp_inv_def)
  next
    case StopStore
    with assms(2) have g: "stopper s = NotCalled"
      and s': "s' = s\<lparr>stop_flag := 1, stopper := FlagStored\<rparr>"
      by (simp_all split: if_splits)
    have "flag_ok s'" by (simp add: flag_ok_def s')
    moreover have "wake_ok s'" using w g by (simp add: wake_ok_def wake_in_flight_def s')
    moreover have "parse_ok s'" using p by (simp add: parse_ok_def s')
    moreover have "barrier_ok s'" using b g by (auto simp: barrier_ok_def stop_arrived_def s')
    ultimately show ?thesis by (simp add: udp_inv_def)
  next
    case StopSend
    with assms(2) have g: "stopper s = FlagStored"
      and s': "s' = s\<lparr>queue := queue s @ [Wake], stopper := ByteSent\<rparr>"
      by (simp_all split: if_splits)
    have "flag_ok s'" using f g by (simp add: flag_ok_def s')
    moreover have "wake_ok s'" by (simp add: wake_ok_def s')
    moreover have "parse_ok s'" using p by (simp add: parse_ok_def s')
    moreover have "barrier_ok s'" using b g by (auto simp: barrier_ok_def stop_arrived_def s')
    ultimately show ?thesis by (simp add: udp_inv_def)
  next
    case StopArrive
    with assms(2) have g: "stopper s = ByteSent"
      and s': "s' = s\<lparr>stopper := InStopBarrier, arrived := Suc (arrived s)\<rparr>"
      by (simp_all split: if_splits)
    have "flag_ok s'" using f g by (simp add: flag_ok_def s')
    moreover have "wake_ok s'" by (simp add: wake_ok_def s')
    moreover have "parse_ok s'" using p by (simp add: parse_ok_def s')
    moreover have "barrier_ok s'" using b g by (auto simp: barrier_ok_def stop_arrived_def s')
    ultimately show ?thesis by (simp add: udp_inv_def)
  next
    case StopLeave
    with assms(2) have g: "stopper s = InStopBarrier"
        "arrived s = Suc (length (worker_pcs s))"
      and s': "s' = s\<lparr>stopper := PastStopBarrier\<rparr>"
      by (simp_all split: if_splits)
    have "flag_ok s'" using f g by (simp add: flag_ok_def s')
    moreover have "wake_ok s'" by (simp add: wake_ok_def s')
    moreover have "parse_ok s'" using p by (simp add: parse_ok_def s')
    moreover have "barrier_ok s'" using b g by (auto simp: barrier_ok_def stop_arrived_def s')
    ultimately show ?thesis by (simp add: udp_inv_def)
  next
    case StopClose
    with assms(2) have g: "stopper s = PastStopBarrier"
      and s': "s' = s\<lparr>stopper := SocketClosed, sockfd_open := False\<rparr>"
      by (simp_all split: if_splits)
    have "flag_ok s'" using f g by (simp add: flag_ok_def s')
    moreover have "wake_ok s'" by (simp add: wake_ok_def s')
    moreover have "parse_ok s'" using p by (simp add: parse_ok_def s')
    moreover have "barrier_ok s'" using b g by (auto simp: barrier_ok_def stop_arrived_def s')
    ultimately show ?thesis by (simp add: udp_inv_def)
  qed
qed

lemma udp_run_inv:
  "udp_inv s \<Longrightarrow> udp_run np s acts = Some s' \<Longrightarrow> udp_inv s'"
proof (induction acts arbitrary: s)
  case Nil
  then show ?case by simp
next
  case (Cons a acts)
  from Cons.prems(2) obtain s1 where
    "udp_step np s a = Some s1" "udp_run np s1 acts = Some s'"
    by (auto split: option.splits)
  with Cons.IH [of s1] udp_step_inv [OF Cons.prems(1)] show ?case by blast
qed

lemma udp_init_inv: "udp_inv (udp_init n)"
  by (simp add: udp_inv_def flag_ok_def wake_ok_def parse_ok_def barrier_ok_def udp_init_def
        wake_in_flight_def stop_arrived_def left_loop_def batch_of_def is_parsing_def
        list_all_iff list_ex_iff)

text \<open>
  C1. In every state that the server with \<open>n\<close> workers reaches, whatever the interleaving:
  once \<^verbatim>\<open>stop()\<close> has been called the flag is 1, and as long as \<^verbatim>\<open>stop()\<close> has not gone
  past the store no wake byte is in the queue or in a received batch: the store comes
  first, the send second. The wake byte is never handed to the parser, nor is it in a
  batch that a worker is parsing, because a worker goes from the receive call to the
  parser only through the test of the flag. And where the socket is closed, every worker
  has left its receive loop: it waits in the stop barrier or has returned from it.
\<close>

theorem stop_protocol_safe:
  assumes "udp_run np (udp_init n) acts = Some s"
  shows "(stopper s \<noteq> NotCalled \<longrightarrow> stop_flag s = 1)
       \<and> (stopper s = NotCalled \<or> stopper s = FlagStored \<longrightarrow> \<not> wake_in_flight s)
       \<and> Wake \<notin> set (parsed s)
       \<and> list_all (\<lambda>pc. is_parsing pc \<longrightarrow> Wake \<notin> set (batch_of pc)) (worker_pcs s)
       \<and> (\<not> sockfd_open s \<longrightarrow> list_all left_loop (worker_pcs s))"
proof -
  have inv: "udp_inv s"
    using udp_run_inv [OF udp_init_inv assms] .
  then have f: "flag_ok s" and w: "wake_ok s" and p: "parse_ok s" and b: "barrier_ok s"
    by (simp_all add: udp_inv_def)
  have "list_all left_loop (worker_pcs s)" if "\<not> sockfd_open s"
  proof -
    from that b have "stopper s = SocketClosed"
      by (simp add: barrier_ok_def)
    with b have "length (filter left_loop (worker_pcs s)) = length (worker_pcs s)"
      by (simp add: barrier_ok_def stop_arrived_def)
    then show ?thesis by (rule all_left_loop)
  qed
  with f w p show ?thesis
    by (simp add: flag_ok_def wake_ok_def parse_ok_def)
qed

theorem stop_protocol_safe_witness:
  "udp_run 8 (udp_init 2) sample_schedule =
     Some \<lparr>stop_flag = 1, queue = [], worker_pcs = [WorkerDone, AtStopBarrier],
           stopper = SocketClosed, arrived = 3, parsed = [Data ''+cpu 1''],
           sockfd_open = False\<rparr>
   \<and> udp_run 8 (udp_init 2) (take 5 sample_schedule) =
     Some \<lparr>stop_flag = 1, queue = [], worker_pcs = [Receiving, Receiving],
           stopper = FlagStored, arrived = 0, parsed = [Data ''+cpu 1''],
           sockfd_open = True\<rparr>
   \<and> \<not> wake_in_flight \<lparr>stop_flag = 1, queue = [], worker_pcs = [Receiving, Receiving],
           stopper = FlagStored, arrived = 0, parsed = [Data ''+cpu 1''],
           sockfd_open = True\<rparr>
   \<and> list_all left_loop [WorkerDone, AtStopBarrier]
   \<and> udp_run 8 (udp_init 2) (take 3 sample_schedule) =
     Some \<lparr>stop_flag = 0, queue = [], worker_pcs = [Parsing [Data ''+cpu 1''], Receiving],
           stopper = NotCalled, arrived = 0, parsed = [], sockfd_open = True\<rparr>
   \<and> is_parsing (Parsing [Data ''+cpu 1''])
   \<and> Wake \<notin> set (batch_of (Parsing [Data ''+cpu 1'']))"
proof -
  let ?final = "\<lparr>stop_flag = 1, queue = [], worker_pcs = [WorkerDone, AtStopBarrier],
           stopper = SocketClosed, arrived = 3, parsed = [Data ''+cpu 1''],
           sockfd_open = False\<rparr>"
  let ?mid = "\<lparr>stop_flag = 1, queue = [], worker_pcs = [Receiving, Receiving],
           stopper = FlagStored, arrived = 0, parsed = [Data ''+cpu 1''],
           sockfd_open = True\<rparr>"
  have r1: "udp_run 8 (udp_init 2) sample_schedule = Some ?final"
    by (simp add: sample_schedule_def udp_init_def numeral_2_eq_2 numeral_3_eq_3)
  have r2: "udp_run 8 (udp_init 2) (take 5 sample_schedule) = Some ?mid"
    by (simp add: sample_schedule_def udp_init_def numeral_2_eq_2)
  let ?early = "\<lparr>stop_flag = 0, queue = [],
           worker_pcs = [Parsing [Data ''+cpu 1''], Receiving],
           stopper = NotCalled, arrived = 0, parsed = [], sockfd_open = True\<rparr>"
  have r3: "udp_run 8 (udp_init 2) (take 3 sample_schedule) = Some ?early"
    by (simp add: sample_schedule_def udp_init_def numeral_2_eq_2 numeral_3_eq_3)
  have p: "is_parsing (Parsing [Data ''+cpu 1''])"
    by (simp add: is_parsing_def)
  from stop_protocol_safe [OF r1] have "list_all left_loop (worker_pcs ?final)"
    by simp
  moreover from stop_protocol_safe [OF r2] have "\<not> wake_in_flight ?mid"
    by simp
  moreover from stop_protocol_safe [OF r3] p
  have "Wake \<notin> set (batch_of (Parsing [Data ''+cpu 1'']))"
    by simp
  ultimately show ?thesis
    using r1 r2 r3 p by simp
qed

end
